theory Spec2Isabelle
  imports Complex_Main "HOL-Library.Char_ord" "HOL-Library.List_Lexorder"
    "HOL-Library.Product_Lexorder"
begin

section \<open>Python strings\<close>

text \<open>
  A Python \<open>str\<close> is modelled as a \<open>string\<close> whose characters are the code points
  below 256.  \<open>is_space\<close> is the set of those code points that \<open>str.strip\<close> and
  \<open>str.rstrip\<close> remove, \<open>lower_char\<close> is \<open>str.lower\<close> on one such code point.
\<close>

definition is_space :: "char \<Rightarrow> bool" where
  "is_space c =
     (let n = (of_char c :: nat)
      in (9 \<le> n \<and> n \<le> 13) \<or> (28 \<le> n \<and> n \<le> 32) \<or> n = 133 \<or> n = 160)"

definition lower_char :: "char \<Rightarrow> char" where
  "lower_char c =
     (let n = (of_char c :: nat)
      in if (65 \<le> n \<and> n \<le> 90) \<or> (192 \<le> n \<and> n \<le> 222 \<and> n \<noteq> 215)
         then char_of (n + 32) else c)"

definition lower :: "string \<Rightarrow> string" where
  "lower s = map lower_char s"

definition lstrip :: "string \<Rightarrow> string" where
  "lstrip s = dropWhile is_space s"

definition rstrip :: "string \<Rightarrow> string" where
  "rstrip s = rev (dropWhile is_space (rev s))"

definition strip :: "string \<Rightarrow> string" where
  "strip s = rstrip (lstrip s)"

text \<open>\<open>sep.join(xs)\<close>\<close>

fun join :: "string \<Rightarrow> string list \<Rightarrow> string" where
  "join sep [] = []"
| "join sep [x] = x"
| "join sep (x # y # ys) = x @ sep @ join sep (y # ys)"

text \<open>\<open>s.split(sep)\<close> for a one-character separator: never an empty list.\<close>

fun split_on :: "char \<Rightarrow> string \<Rightarrow> string list" where
  "split_on sep [] = [[]]"
| "split_on sep (c # cs) =
     (if c = sep then [] # split_on sep cs
      else (case split_on sep cs of
              [] \<Rightarrow> [[c]]
            | p # ps \<Rightarrow> (c # p) # ps))"

section \<open>The interchange serializer (olca\_jsonld\_writer.py)\<close>

text \<open>
  The values a process dictionary can hold under \<open>'name'\<close> and \<open>'category'\<close>:
  \<open>None\<close> (also: the key is absent, \<open>dict.get\<close> gives \<open>None\<close>), a \<open>bool\<close>, a \<open>str\<close>,
  or any other object, which the serializer only ever looks at through \<open>str()\<close>
  and which is therefore represented by that text.
\<close>

datatype pyval = PNone | PBool bool | PStr string | PObj string

fun py_str :: "pyval \<Rightarrow> string" where
  "py_str PNone = ''None''"
| "py_str (PBool b) = (if b then ''True'' else ''False'')"
| "py_str (PStr s) = s"
| "py_str (PObj s) = s"

text \<open>
  \<open>olca.ModelType\<close> is an \<open>Enum\<close> of the olca package; the serializer uses its member
  \<open>PROCESS\<close>, once through \<open>str()\<close> (the process identifier) and once through
  \<open>.value\<close> (the category identifiers).
\<close>

datatype ModelType = PROCESS

fun ModelType_str :: "ModelType \<Rightarrow> string" where
  "ModelType_str PROCESS = ''ModelType.PROCESS''"

fun ModelType_value :: "ModelType \<Rightarrow> string" where
  "ModelType_value PROCESS = ''PROCESS''"

text \<open>
  \<open>_uid(*args)\<close>: the arguments arrive here already passed through \<open>str()\<close>.
  \<open>uuid3\<close> stands for \<open>lambda p: str(uuid.uuid3(uuid.NAMESPACE_OID, p))\<close>, the
  name-based identifier of the Python standard library; it is a parameter of the model.
\<close>

definition uid :: "(string \<Rightarrow> string) \<Rightarrow> string list \<Rightarrow> string" where
  "uid uuid3 args = uuid3 (lower (join ''/'' (map strip args)))"

record ref =
  ref_id :: string
  ref_name :: string
  ref_category_path :: "string list"

record category_rec =
  cat_id :: string
  cat_model_type :: ModelType
  cat_name :: string
  cat_category :: "ref option"

text \<open>
  An exchange dictionary.  \<open>e_unit_name\<close> is what \<open>_val(d, 'unit', 'name')\<close> finds:
  \<open>PNone\<close> when \<open>'unit'\<close> is absent, is not a dictionary or has no \<open>'name'\<close>.
\<close>

record exchange_dict =
  e_input :: pyval
  e_quantitativeReference :: pyval
  e_avoidedProduct :: pyval
  e_amount :: pyval
  e_unit_name :: pyval

record unit_ref =
  unit_ref_id :: string
  unit_ref_name :: string

record exchange_rec =
  x_input :: pyval
  x_quantitative_reference :: pyval
  x_avoided_product :: pyval
  x_amount :: pyval
  x_unit :: "unit_ref option"
  x_flow_property :: "unit_ref option"
  x_internal_id :: nat

text \<open>
  A process dictionary.  \<open>p_exchanges\<close> is \<open>None\<close> when the dictionary has no
  \<open>'exchanges'\<close>, otherwise the list it holds, whose entries may be \<open>None\<close>.
\<close>

record process_dict =
  p_name :: pyval
  p_category :: pyval
  p_exchanges :: "exchange_dict option list option"

record process_rec =
  proc_id :: string
  proc_name :: pyval
  proc_category :: "ref option"
  proc_exchanges :: "exchange_rec list"

text \<open>What \<open>writer.write\<close> receives, in the order of the calls.\<close>

datatype entity = CategoryE category_rec | ProcessE process_rec

text \<open>\<open>_val(d, key, default=dflt)\<close> on a value already looked up.\<close>

definition val_default :: "pyval \<Rightarrow> pyval \<Rightarrow> pyval" where
  "val_default v dflt = (if v = PNone then dflt else v)"

definition unit :: "pyval \<Rightarrow> unit_ref option" where
  "unit unit_name =
     (if unit_name = PStr ''MWh''
        then Some \<lparr>unit_ref_id = ''92e3bd49-8ed5-4885-9db6-fc88c7afcfcb'', unit_ref_name = ''MWh''\<rparr>
      else if unit_name = PStr ''MJ''
        then Some \<lparr>unit_ref_id = ''52765a6c-3896-43c2-b2f4-c679acf13efe'', unit_ref_name = ''MJ''\<rparr>
      else if unit_name = PStr ''kg''
        then Some \<lparr>unit_ref_id = ''20aadc24-a391-41cf-b340-3e4529f44bde'', unit_ref_name = ''kg''\<rparr>
      else None)"

definition flow_property :: "pyval \<Rightarrow> unit_ref option" where
  "flow_property unit_name =
     (if unit_name = PStr ''MWh''
        then Some \<lparr>unit_ref_id = ''f6811440-ee37-11de-8a39-0800200c9a66'', unit_ref_name = ''Energy''\<rparr>
      else if unit_name = PStr ''MJ''
        then Some \<lparr>unit_ref_id = ''f6811440-ee37-11de-8a39-0800200c9a66'', unit_ref_name = ''Energy''\<rparr>
      else if unit_name = PStr ''kg''
        then Some \<lparr>unit_ref_id = ''93a60a56-a3c8-11da-a746-0800200b9a66'', unit_ref_name = ''Mass''\<rparr>
      else None)"

text \<open>
  \<open>_exchange(d, writer, created_ids)\<close>: neither the writer nor the created set is
  touched, so the model returns the exchange only.  The internal identifier is set by
  the caller.
\<close>

definition exchange :: "exchange_dict option \<Rightarrow> exchange_rec option" where
  "exchange d =
     (case d of
        None \<Rightarrow> None
      | Some e \<Rightarrow>
          Some \<lparr>x_input = val_default (e_input e) (PBool False),
                x_quantitative_reference = val_default (e_quantitativeReference e) (PBool False),
                x_avoided_product = val_default (e_avoidedProduct e) (PBool False),
                x_amount = val_default (e_amount e) (PObj ''0.0''),
                x_unit = unit (e_unit_name e),
                x_flow_property = flow_property (e_unit_name e),
                x_internal_id = 0\<rparr>)"

text \<open>
  The state the serializer threads through a run: the records written so far and
  the set \<open>created_ids\<close>.
\<close>

type_synonym wstate = "entity list \<times> string set"

text \<open>
  One iteration of the loop of \<open>_category\<close>, for index \<open>i\<close>, on the loop variable
  \<open>parent\<close> and the writer state.
\<close>

definition category_step ::
  "(string \<Rightarrow> string) \<Rightarrow> ModelType \<Rightarrow> string list \<Rightarrow> ref option \<times> wstate \<Rightarrow> nat
     \<Rightarrow> ref option \<times> wstate" where
  "category_step uuid3 mtype parts st i =
     (case st of (parent, written, created_ids) \<Rightarrow>
        let uid_path = ModelType_value mtype # take (i + 1) parts;
            u = uid uuid3 uid_path;
            name = strip (parts ! i);
            st' = (if u \<notin> created_ids
                   then (written @ [CategoryE \<lparr>cat_id = u, cat_model_type = mtype,
                                               cat_name = name, cat_category = parent\<rparr>],
                         insert u created_ids)
                   else (written, created_ids))
        in (Some \<lparr>ref_id = u, ref_name = name, ref_category_path = tl uid_path\<rparr>, st'))"

definition category ::
  "(string \<Rightarrow> string) \<Rightarrow> pyval \<Rightarrow> ModelType \<Rightarrow> wstate \<Rightarrow> ref option \<times> wstate" where
  "category uuid3 path mtype ws =
     (case path of
        PStr s \<Rightarrow>
          if strip s = [] then (None, ws)
          else (let parts = split_on CHR ''/'' s
                in foldl (category_step uuid3 mtype parts) (None, ws) [0..<length parts])
      | _ \<Rightarrow> (None, ws))"

text \<open>The inner loop of \<open>write\<close> over the exchanges, with its counter \<open>last_id\<close>.\<close>

fun exchanges_loop :: "nat \<Rightarrow> exchange_dict option list \<Rightarrow> exchange_rec list" where
  "exchanges_loop last_id [] = []"
| "exchanges_loop last_id (e # es) =
     (case exchange e of
        None \<Rightarrow> exchanges_loop last_id es
      | Some x \<Rightarrow> x\<lparr>x_internal_id := last_id + 1\<rparr> # exchanges_loop (last_id + 1) es)"

text \<open>The body of the loop of \<open>write\<close> for one process dictionary.\<close>

definition write_process :: "(string \<Rightarrow> string) \<Rightarrow> wstate \<Rightarrow> process_dict \<Rightarrow> wstate" where
  "write_process uuid3 ws d =
     (let name = p_name d;
          category_path = p_category d;
          pid = uid uuid3 [ModelType_str PROCESS, py_str category_path, py_str name];
          (cat, ws') = category uuid3 category_path PROCESS ws;
          exchanges = exchanges_loop 0 (case p_exchanges d of None \<Rightarrow> [] | Some es \<Rightarrow> es)
      in (fst ws' @ [ProcessE \<lparr>proc_id = pid, proc_name = name, proc_category = cat,
                                proc_exchanges = exchanges\<rparr>],
          snd ws'))"

text \<open>
  \<open>write(processes, file_path)\<close>: \<open>processes.values()\<close> is the list \<open>ds\<close>; the result is
  the sequence of records handed to the archive writer.  (The name \<open>write\<close> is taken
  in Isabelle.)
\<close>

definition write_zip :: "(string \<Rightarrow> string) \<Rightarrow> process_dict list \<Rightarrow> entity list" where
  "write_zip uuid3 ds = fst (foldl (write_process uuid3) ([], {}) ds)"

text \<open>Projections of the written sequence.\<close>

fun written_categories :: "entity list \<Rightarrow> category_rec list" where
  "written_categories [] = []"
| "written_categories (CategoryE c # es) = c # written_categories es"
| "written_categories (ProcessE p # es) = written_categories es"

fun written_processes :: "entity list \<Rightarrow> process_rec list" where
  "written_processes [] = []"
| "written_processes (CategoryE c # es) = written_processes es"
| "written_processes (ProcessE p # es) = p # written_processes es"

subsection \<open>What a run is expected to write\<close>

text \<open>
  The segments of the category path of a process dictionary, as \<open>_category\<close> sees them:
  none when the value is not a \<open>str\<close> or consists of white space only.
\<close>

definition blank_category :: "pyval \<Rightarrow> bool" where
  "blank_category path = (case path of PStr s \<Rightarrow> list_all is_space s | _ \<Rightarrow> True)"

definition category_parts :: "process_dict \<Rightarrow> string list" where
  "category_parts d =
     (case p_category d of
        PStr s \<Rightarrow> if list_all is_space s then [] else split_on CHR ''/'' s
      | _ \<Rightarrow> [])"

text \<open>
  The reference to the category of the first \<open>i\<close> segments (none for \<open>i = 0\<close>), and the
  Category record of the first \<open>i + 1\<close> segments with that reference as its parent.
\<close>

definition parent_ref :: "(string \<Rightarrow> string) \<Rightarrow> string list \<Rightarrow> nat \<Rightarrow> ref option" where
  "parent_ref uuid3 parts i =
     (if i = 0 then None
      else Some \<lparr>ref_id = uid uuid3 (ModelType_value PROCESS # take i parts),
                 ref_name = strip (parts ! (i - 1)),
                 ref_category_path = take i parts\<rparr>)"

definition category_for :: "(string \<Rightarrow> string) \<Rightarrow> string list \<Rightarrow> nat \<Rightarrow> category_rec" where
  "category_for uuid3 parts i =
     \<lparr>cat_id = uid uuid3 (ModelType_value PROCESS # take (i + 1) parts),
      cat_model_type = PROCESS,
      cat_name = strip (parts ! i),
      cat_category = parent_ref uuid3 parts i\<rparr>"

text \<open>The identifiers of all prefixes of the category path of a process dictionary.\<close>

definition category_uids :: "(string \<Rightarrow> string) \<Rightarrow> process_dict \<Rightarrow> string list" where
  "category_uids uuid3 d =
     map (\<lambda>i. uid uuid3 (ModelType_value PROCESS # take (i + 1) (category_parts d)))
       [0..<length (category_parts d)]"

text \<open>The identifier \<open>write\<close> gives to the process of a dictionary.\<close>

definition process_uid :: "(string \<Rightarrow> string) \<Rightarrow> process_dict \<Rightarrow> string" where
  "process_uid uuid3 d =
     uid uuid3 [ModelType_str PROCESS, py_str (p_category d), py_str (p_name d)]"

text \<open>
  The invariant of a run, on the writer state: the created set holds exactly the
  identifiers of the Category records written, no identifier was written twice, and
  every Category record written is that of a prefix of one of the paths \<open>D\<close>.
\<close>

definition good :: "(string \<Rightarrow> string) \<Rightarrow> string list set \<Rightarrow> wstate \<Rightarrow> bool" where
  "good uuid3 D ws =
     (snd ws = cat_id ` set (written_categories (fst ws)) \<and>
      distinct (map cat_id (written_categories (fst ws))) \<and>
      (\<forall>c \<in> set (written_categories (fst ws)).
         \<exists>parts \<in> D. \<exists>i < length parts. c = category_for uuid3 parts i))"

definition valid_parts :: "process_dict list \<Rightarrow> string list set" where
  "valid_parts ds = category_parts ` {d \<in> set ds. \<not> blank_category (p_category d)}"

text \<open>Two runs used as concrete inputs below.\<close>

definition run_a :: "process_dict list" where
  "run_a =
     [\<lparr>p_name = PStr ''Coal plant'', p_category = PStr ''Utilities/Power'', p_exchanges = None\<rparr>,
      \<lparr>p_name = PStr ''Gas plant'', p_category = PStr ''utilities/ power /Gas'',
        p_exchanges = Some [None,
          Some \<lparr>e_input = PNone, e_quantitativeReference = PBool True, e_avoidedProduct = PNone,
                e_amount = PNone, e_unit_name = PStr ''kg''\<rparr>]\<rparr>,
      \<lparr>p_name = PStr ''Loose'', p_category = PStr ''  '', p_exchanges = None\<rparr>]"

definition run_b :: "process_dict list" where
  "run_b =
     [\<lparr>p_name = PObj ''7'', p_category = PNone, p_exchanges = None\<rparr>,
      \<lparr>p_name = PStr ''COAL PLANT'', p_category = PStr ''UTILITIES/POWER'', p_exchanges = Some []\<rparr>]"

section \<open>Tables (pandas data frames)\<close>

text \<open>
  A cell holds a text or a number, or is null (\<open>NaN\<close>, \<open>None\<close>).  Numbers are exact:
  the rounding of floating-point arithmetic is outside this model.  A row maps each
  column label to its cell; a data frame is its list of column labels and its rows in
  order.  Rows are identified by position: the frames here have a unique index.
\<close>

datatype val = Str string | Num real

type_synonym cell = "val option"

type_synonym row = "string \<Rightarrow> cell"

record dataframe =
  columns :: "string list"
  rows :: "row list"

text \<open>
  The exceptions of the combinator.  \<open>NotModelled\<close> marks the inputs of the merge on which
  this model does not follow pandas; they are listed at \<open>merge_region\<close>.
\<close>

datatype error = KeyError | TypeError | ValueError | NotModelled

text \<open>A row seen through the columns of its frame only.\<close>

definition restrict_row :: "string list \<Rightarrow> row \<Rightarrow> row" where
  "restrict_row cols r = (\<lambda>c. if c \<in> set cols then r c else None)"

text \<open>\<open>df.dropna(subset=cols)\<close>\<close>

definition dropna_subset :: "string list \<Rightarrow> row list \<Rightarrow> row list" where
  "dropna_subset cols rs = filter (\<lambda>r. \<forall>c \<in> set cols. r c \<noteq> None) rs"

text \<open>
  \<open>df.drop_duplicates(subset=cols)\<close>: the first row of each combination of values is
  kept; two nulls count as equal.
\<close>

fun drop_duplicates_seen :: "string list \<Rightarrow> cell list list \<Rightarrow> row list \<Rightarrow> row list" where
  "drop_duplicates_seen cols seen [] = []"
| "drop_duplicates_seen cols seen (r # rs) =
     (if map r cols \<in> set seen then drop_duplicates_seen cols seen rs
      else r # drop_duplicates_seen cols (map r cols # seen) rs)"

definition drop_duplicates :: "string list \<Rightarrow> row list \<Rightarrow> row list" where
  "drop_duplicates cols rs = drop_duplicates_seen cols [] rs"

text \<open>
  \<open>df.set_index(key)[col]\<close> on rows whose key is not null: the series as the list of its
  (index label, value) pairs.
\<close>

definition series_of :: "string \<Rightarrow> string \<Rightarrow> row list \<Rightarrow> (val \<times> cell) list" where
  "series_of key col rs =
     List.map_filter (\<lambda>r. case r key of None \<Rightarrow> None | Some k \<Rightarrow> Some (k, r col)) rs"

text \<open>
  \<open>Series.map(s)\<close> on one cell, for a series \<open>s\<close> with a unique index: null stays null,
  a label that is not in the index gives null.
\<close>

definition series_map :: "(val \<times> cell) list \<Rightarrow> cell \<Rightarrow> cell" where
  "series_map s x =
     (case x of
        None \<Rightarrow> None
      | Some k \<Rightarrow> (case map_of s k of None \<Rightarrow> None | Some v \<Rightarrow> v))"

text \<open>The same for an external reference table, given as its lookup function.\<close>

definition table_map :: "(val \<Rightarrow> cell) \<Rightarrow> cell \<Rightarrow> cell" where
  "table_map t x = (case x of None \<Rightarrow> None | Some k \<Rightarrow> t k)"

text \<open>\<open>df[c] = f(row)\<close>: the column is added when the frame does not have it.\<close>

definition set_column :: "string \<Rightarrow> (row \<Rightarrow> cell) \<Rightarrow> dataframe \<Rightarrow> dataframe" where
  "set_column c f df =
     \<lparr>columns = (if c \<in> set (columns df) then columns df else columns df @ [c]),
      rows = map (\<lambda>r. r(c := f r)) (rows df)\<rparr>"

text \<open>
  \<open>df.loc[sel, c] = v\<close> for a boolean selection of rows: a column the frame does not
  have is added, null outside the selection.
\<close>

definition loc_set :: "(row \<Rightarrow> bool) \<Rightarrow> string \<Rightarrow> cell \<Rightarrow> dataframe \<Rightarrow> dataframe" where
  "loc_set sel c v df =
     (if c \<in> set (columns df)
      then \<lparr>columns = columns df, rows = map (\<lambda>r. if sel r then r(c := v) else r) (rows df)\<rparr>
      else \<lparr>columns = columns df @ [c],
            rows = map (\<lambda>r. r(c := (if sel r then v else None))) (rows df)\<rparr>)"

text \<open>\<open>df.drop(columns=[c])\<close> inside \<open>try ... except KeyError\<close>.\<close>

definition drop_column_if_present :: "string \<Rightarrow> dataframe \<Rightarrow> dataframe" where
  "drop_column_if_present c df =
     (if c \<in> set (columns df)
      then \<lparr>columns = removeAll c (columns df), rows = map (\<lambda>r. r(c := None)) (rows df)\<rparr>
      else df)"

section \<open>The key-fill resolver (combinator.fill\_nans)\<close>

definition default_target_columns :: "string list" where
  "default_target_columns =
     [''Balancing Authority Code'',
      ''Balancing Authority Name'',
      ''FuelCategory'',
      ''NERC'',
      ''PercentGenerationfromDesignatedFuelCategory'',
      ''eGRID_ID'',
      ''Subregion'',
      ''FERC_Region'',
      ''EIA_Region'',
      ''State'',
      ''Electricity'']"

text \<open>
  One pass of the loop over the confirmed target columns:
  \<open>key_df = df[[key_column, col]].dropna().drop_duplicates(subset=key_column).set_index(key_column)\<close>,
  then \<open>df.loc[df[col].isnull(), col] = df.loc[df[col].isnull(), key_column].map(key_df[col])\<close>.
\<close>

definition fill_column :: "string \<Rightarrow> string \<Rightarrow> row list \<Rightarrow> row list" where
  "fill_column key_column col rs =
     (let key_df = drop_duplicates [key_column] (dropna_subset [key_column, col] rs);
          s = series_of key_column col key_df
      in map (\<lambda>r. if r col = None then r(col := series_map s (r key_column)) else r) rs)"

text \<open>The loop over the confirmed target columns; each pass works on the result of the last.\<close>

definition fill_columns :: "string \<Rightarrow> string list \<Rightarrow> row list \<Rightarrow> row list" where
  "fill_columns key_column cols rs = foldl (\<lambda>rs col. fill_column key_column col rs) rs cols"

text \<open>
  \<open>df.loc[df["State"].isna(), "State"] = df.loc[df["State"].isna(), "eGRID_ID"].map(plant_ba["State"])\<close>
  on one row.
\<close>

definition state_fallback :: "(val \<Rightarrow> cell) \<Rightarrow> row \<Rightarrow> row" where
  "state_fallback plant_ba_State r =
     (if r ''State'' = None then r(''State'' := table_map plant_ba_State (r ''eGRID_ID'')) else r)"

text \<open>
  \<open>fill_nans(df, key_column, target_columns, dropna)\<close>.  \<open>plant_ba_State\<close> is the column
  \<open>State\<close> of the facility table \<open>eia860_balancing_authority(eia_gen_year)\<close> indexed by
  plant identifier, an external table.  The code updates the frame in place and returns
  it.  \<open>fill_nans_run\<close> gives the frame as the call leaves it, together with the exception
  if one is raised; \<open>fill_nans\<close> is what the caller gets.  When the key column is itself
  a confirmed target column, the pass for it selects \<open>df[[key_column, key_column]]\<close> and
  \<open>set_index\<close> raises \<open>ValueError\<close> on the doubled label; the passes before it have been
  applied by then.
\<close>

definition fill_nans_run ::
  "(val \<Rightarrow> cell) \<Rightarrow> dataframe \<Rightarrow> string \<Rightarrow> string list \<Rightarrow> bool
     \<Rightarrow> dataframe \<times> error option" where
  "fill_nans_run plant_ba_State df key_column target_columns dropna =
     (let target_columns =
            (if target_columns = [] then default_target_columns else target_columns);
          confirmed_target = filter (\<lambda>x. x \<in> set (columns df)) target_columns
      in if key_column \<notin> set (columns df) then (df, Some KeyError)
         else if key_column \<in> set confirmed_target
         then (\<lparr>columns = columns df,
                rows = fill_columns key_column
                         (takeWhile (\<lambda>col. col \<noteq> key_column) confirmed_target) (rows df)\<rparr>,
               Some ValueError)
         else
           let rs1 = fill_columns key_column confirmed_target (rows df);
               df1 = \<lparr>columns = columns df, rows = rs1\<rparr>;
               (df2, confirmed_target) =
                  (if ''State'' \<notin> set (columns df)
                   then (set_column ''State'' (\<lambda>r. None) df1, confirmed_target @ [''State''])
                   else (df1, confirmed_target))
           in if ''eGRID_ID'' \<notin> set (columns df2) then (df2, Some KeyError)
              else
                let rs3 = map (state_fallback plant_ba_State) (rows df2);
                    rs4 = (if dropna then dropna_subset confirmed_target rs3 else rs3)
                in (\<lparr>columns = columns df2, rows = rs4\<rparr>, None))"

definition fill_nans ::
  "(val \<Rightarrow> cell) \<Rightarrow> dataframe \<Rightarrow> string \<Rightarrow> string list \<Rightarrow> bool \<Rightarrow> error + dataframe" where
  "fill_nans plant_ba_State df key_column target_columns dropna =
     (case fill_nans_run plant_ba_State df key_column target_columns dropna of
        (df', None) \<Rightarrow> Inr df'
      | (df', Some e) \<Rightarrow> Inl e)"

text \<open>The defaults of the Python signature.\<close>

definition fill_nans_default :: "(val \<Rightarrow> cell) \<Rightarrow> dataframe \<Rightarrow> error + dataframe" where
  "fill_nans_default plant_ba_State df = fill_nans plant_ba_State df ''FacilityID'' [] True"

section \<open>The plant and upstream combiner (combinator.concat\_clean\_upstream\_and\_plant)\<close>

text \<open>
  The module-level table \<open>ba_codes\<close>, indexed by balancing-authority acronym: its three
  columns that the combiner reads, as lookup functions.
\<close>

record ba_codes =
  BA_Name :: "val \<Rightarrow> cell"
  FERC_Region :: "val \<Rightarrow> cell"
  EIA_Region :: "val \<Rightarrow> cell"

text \<open>The two settings of \<open>model_config\<close> that the combiner reads.\<close>

record model_config =
  keep_mixed_plant_category :: bool
  min_plant_percent_generation_from_primary_fuel_category :: real

definition region_cols :: "string list" where
  "region_cols = [''NERC'', ''Balancing Authority Code'', ''Balancing Authority Name'', ''Subregion'']"

text \<open>Whether a column holds a text, or a number, in some row.\<close>

definition is_text :: "cell \<Rightarrow> bool" where
  "is_text x = (case x of Some (Str s) \<Rightarrow> True | _ \<Rightarrow> False)"

definition is_number :: "cell \<Rightarrow> bool" where
  "is_number x = (case x of Some (Num n) \<Rightarrow> True | _ \<Rightarrow> False)"

definition has_text :: "string \<Rightarrow> row list \<Rightarrow> bool" where
  "has_text c rs = list_ex (\<lambda>r. is_text (r c)) rs"

definition has_number :: "string \<Rightarrow> row list \<Rightarrow> bool" where
  "has_number c rs = list_ex (\<lambda>r. is_number (r c)) rs"

text \<open>
  \<open>up_df.merge(right=pl_df[["eGRID_ID"] + region_cols].drop_duplicates(),
  left_on="plant_id", right_on="eGRID_ID", how="left")\<close>.  Every row of the left table
  is kept, in order, once for each row of the right table with an equal key, and once
  with nulls on the right when there is none; null keys match each other, as in
  pandas.  A label that both tables have gets the suffix \<open>_x\<close> on the left and \<open>_y\<close> on
  the right.  Two kinds of input are \<open>NotModelled\<close>: labels that are not distinct after
  the suffixes are added, and key columns of which one holds a text and the other a
  number (pandas compares the inferred types of the two key columns and refuses some
  of these merges with \<open>ValueError\<close>).
\<close>

definition merge_region :: "dataframe \<Rightarrow> dataframe \<Rightarrow> error + dataframe" where
  "merge_region pl_df up_df =
     (let right_cols = ''eGRID_ID'' # region_cols
      in if \<not> set right_cols \<subseteq> set (columns pl_df) then Inl KeyError
         else if ''plant_id'' \<notin> set (columns up_df) then Inl KeyError
         else
           let right = drop_duplicates right_cols (map (restrict_row right_cols) (rows pl_df));
               overlap = (\<lambda>c. c \<in> set (columns up_df) \<and> c \<in> set right_cols);
               left_label = (\<lambda>c. if overlap c then c @ ''_x'' else c);
               right_label = (\<lambda>c. if overlap c then c @ ''_y'' else c);
               labels = map left_label (columns up_df) @ map right_label right_cols;
               joined_row = (\<lambda>l r. (\<lambda>c. case map_of (map (\<lambda>a. (left_label a, l a)) (columns up_df) @
                                                      map (\<lambda>a. (right_label a, r a)) right_cols) c of
                                             None \<Rightarrow> None
                                           | Some v \<Rightarrow> v));
               joined = (\<lambda>l. let ms = filter (\<lambda>r. r ''eGRID_ID'' = l ''plant_id'') right
                            in if ms = [] then [joined_row l (\<lambda>a. None)]
                               else map (joined_row l) ms)
           in if \<not> distinct labels then Inl NotModelled
              else if (has_text ''plant_id'' (rows up_df) \<and> has_number ''eGRID_ID'' right) \<or>
                      (has_number ''plant_id'' (rows up_df) \<and> has_text ''eGRID_ID'' right)
              then Inl NotModelled
              else Inr \<lparr>columns = labels, rows = concat (map joined (rows up_df))\<rparr>)"

text \<open>\<open>pd.concat([a, b], ignore_index=True)\<close>\<close>

definition concat_frames :: "dataframe \<Rightarrow> dataframe \<Rightarrow> dataframe" where
  "concat_frames a b =
     \<lparr>columns = columns a @ filter (\<lambda>c. c \<notin> set (columns a)) (columns b),
      rows = map (restrict_row (columns a)) (rows a) @ map (restrict_row (columns b)) (rows b)\<rparr>"

text \<open>
  The first part of the function: merge, concatenation, the three columns derived from
  the balancing-authority code, the deleted columns and \<open>FacilityID\<close>.
\<close>

definition categories_to_delete :: "string list" where
  "categories_to_delete =
     [''plant_id'', ''FuelCategory_right'', ''Net Generation (MWh)'', ''PrimaryFuel_right'']"

definition combine :: "ba_codes \<Rightarrow> dataframe \<Rightarrow> dataframe \<Rightarrow> error + dataframe" where
  "combine ba pl_df up_df =
     (case merge_region pl_df up_df of
        Inl e \<Rightarrow> Inl e
      | Inr up_df \<Rightarrow>
          let combined_df = concat_frames pl_df up_df;
              combined_df = set_column ''Balancing Authority Name''
                 (\<lambda>r. table_map (BA_Name ba) (r ''Balancing Authority Code'')) combined_df;
              combined_df = set_column ''FERC_Region''
                 (\<lambda>r. table_map (FERC_Region ba) (r ''Balancing Authority Code'')) combined_df;
              combined_df = set_column ''EIA_Region''
                 (\<lambda>r. table_map (EIA_Region ba) (r ''Balancing Authority Code'')) combined_df;
              combined_df = foldl (\<lambda>df x. drop_column_if_present x df) combined_df
                 categories_to_delete;
              combined_df = set_column ''FacilityID'' (\<lambda>r. r ''eGRID_ID'') combined_df
          in Inr combined_df)"

text \<open>
  The two assignments that null the fuel category: of every row whose stage code is
  not \<open>Power plant\<close>, then of every row tagged \<open>CONSTRUCTION\<close>.
\<close>

definition null_fuel_category :: "dataframe \<Rightarrow> error + dataframe" where
  "null_fuel_category combined_df =
     (if ''stage_code'' \<notin> set (columns combined_df) then Inl KeyError
      else
        let combined_df = loc_set (\<lambda>r. r ''stage_code'' \<noteq> Some (Str ''Power plant''))
               ''FuelCategory'' None combined_df;
            combined_df = loc_set (\<lambda>r. r ''FuelCategory'' = Some (Str ''CONSTRUCTION''))
               ''FuelCategory'' None combined_df
        in Inr combined_df)"

text \<open>The frame as it leaves \<open>fill_nans\<close>, before the mixed-fuel policy.\<close>

definition combined_filled ::
  "ba_codes \<Rightarrow> (val \<Rightarrow> cell) \<Rightarrow> dataframe \<Rightarrow> dataframe \<Rightarrow> error + dataframe" where
  "combined_filled ba plant_ba_State pl_df up_df =
     (case combine ba pl_df up_df of
        Inl e \<Rightarrow> Inl e
      | Inr combined_df \<Rightarrow>
          (case null_fuel_category combined_df of
             Inl e \<Rightarrow> Inl e
           | Inr combined_df \<Rightarrow> fill_nans_default plant_ba_State combined_df))"

text \<open>
  \<open>generation_filter\<close> on one row: a null compares false; a text in the column makes
  the comparison of the whole column raise \<open>TypeError\<close>.
\<close>

definition generation_filter :: "model_config \<Rightarrow> row \<Rightarrow> bool" where
  "generation_filter cfg r =
     (case r ''PercentGenerationfromDesignatedFuelCategory'' of
        Some (Num x) \<Rightarrow> x < min_plant_percent_generation_from_primary_fuel_category cfg / 100
      | _ \<Rightarrow> False)"

definition mixed_policy :: "model_config \<Rightarrow> dataframe \<Rightarrow> error + dataframe" where
  "mixed_policy cfg combined_df =
     (if ''PercentGenerationfromDesignatedFuelCategory'' \<notin> set (columns combined_df)
      then Inl KeyError
      else if list_ex (\<lambda>r. is_text (r ''PercentGenerationfromDesignatedFuelCategory''))
                (rows combined_df)
      then Inl TypeError
      else if keep_mixed_plant_category cfg
      then Inr (loc_set (generation_filter cfg) ''PrimaryFuel'' (Some (Str ''Mixed Fuel Type''))
                 (loc_set (generation_filter cfg) ''FuelCategory'' (Some (Str ''MIXED''))
                    combined_df))
      else Inr \<lparr>columns = columns combined_df,
                rows = filter (\<lambda>r. \<not> generation_filter cfg r) (rows combined_df)\<rparr>)"

definition concat_clean_upstream_and_plant ::
  "model_config \<Rightarrow> ba_codes \<Rightarrow> (val \<Rightarrow> cell) \<Rightarrow> dataframe \<Rightarrow> dataframe \<Rightarrow> error + dataframe" where
  "concat_clean_upstream_and_plant cfg ba plant_ba_State pl_df up_df =
     (case combined_filled ba plant_ba_State pl_df up_df of
        Inl e \<Rightarrow> Inl e
      | Inr combined_df \<Rightarrow> mixed_policy cfg combined_df)"

text \<open>Building a row from its non-null cells, and reading cells off a result.\<close>

definition cells :: "string list \<Rightarrow> row \<Rightarrow> cell list" where
  "cells cols r = map r cols"

definition returned_cells :: "string list \<Rightarrow> error + dataframe \<Rightarrow> error + cell list list" where
  "returned_cells cols res =
     (case res of Inl e \<Rightarrow> Inl e | Inr df \<Rightarrow> Inr (map (cells cols) (rows df)))"


definition mk_row :: "(string \<times> val) list \<Rightarrow> row" where
  "mk_row kvs = map_of kvs"

subsection \<open>Descriptions used in the statements\<close>

text \<open>
  The value of column \<open>col\<close> in the first row, in the order of the table, whose key is
  \<open>x\<close> and whose \<open>col\<close> is not null; null when \<open>x\<close> is null or there is no such row.
\<close>

definition first_value :: "string \<Rightarrow> string \<Rightarrow> row list \<Rightarrow> cell \<Rightarrow> cell" where
  "first_value key col rs x =
     (case x of
        None \<Rightarrow> None
      | Some k \<Rightarrow> (case find (\<lambda>r. r key = Some k \<and> r col \<noteq> None) rs of
                    None \<Rightarrow> None
                  | Some r \<Rightarrow> r col))"

text \<open>The target columns that \<open>fill_nans\<close> works on: the requested ones that the frame has.\<close>

definition confirmed_targets :: "dataframe \<Rightarrow> string list \<Rightarrow> string list" where
  "confirmed_targets df target_columns =
     filter (\<lambda>x. x \<in> set (columns df))
       (if target_columns = [] then default_target_columns else target_columns)"

text \<open>The columns in which \<open>fill_nans\<close> with \<open>dropna\<close> accepts no null.\<close>

definition checked_columns :: "dataframe \<Rightarrow> string list \<Rightarrow> string list" where
  "checked_columns df target_columns =
     confirmed_targets df target_columns @
       (if ''State'' \<in> set (columns df) then [] else [''State''])"

text \<open>The rows of \<open>fill_nans\<close> after all fills, before rows are dropped.\<close>

definition all_fills :: "(val \<Rightarrow> cell) \<Rightarrow> dataframe \<Rightarrow> string \<Rightarrow> string list \<Rightarrow> row list" where
  "all_fills plant_ba_State df key_column target_columns =
     map (state_fallback plant_ba_State)
       (map (\<lambda>r. if ''State'' \<in> set (columns df) then r else r(''State'' := None))
          (fill_columns key_column (confirmed_targets df target_columns) (rows df)))"

text \<open>The frame of a result that is not an exception.\<close>

definition the_frame :: "error + dataframe \<Rightarrow> dataframe" where
  "the_frame res = (case res of Inr df \<Rightarrow> df | Inl e \<Rightarrow> \<lparr>columns = [], rows = []\<rparr>)"

subsection \<open>Concrete tables\<close>

definition ex_state :: "val \<Rightarrow> cell" where
  "ex_state = (\<lambda>v. if v = Num 1 \<or> v = Num 2 then Some (Str ''TX'') else None)"

definition ex_fill :: dataframe where
  "ex_fill =
     \<lparr>columns = [''FacilityID'', ''eGRID_ID'', ''NERC'', ''FuelCategory''],
      rows = [mk_row [(''FacilityID'', Num 1), (''eGRID_ID'', Num 1), (''FuelCategory'', Str ''GAS'')],
              mk_row [(''FacilityID'', Num 1), (''eGRID_ID'', Num 1), (''NERC'', Str ''TRE'')],
              mk_row [(''FacilityID'', Num 7), (''eGRID_ID'', Num 7), (''NERC'', Str ''WECC'')]]\<rparr>"

text \<open>A table with a \<open>State\<close> column: plant 1 has a state in its second row only.\<close>

definition ex_fill_state :: dataframe where
  "ex_fill_state =
     \<lparr>columns = [''FacilityID'', ''eGRID_ID'', ''State''],
      rows = [mk_row [(''FacilityID'', Num 1), (''eGRID_ID'', Num 1)],
              mk_row [(''FacilityID'', Num 1), (''eGRID_ID'', Num 1), (''State'', Str ''OK'')],
              mk_row [(''FacilityID'', Num 2), (''eGRID_ID'', Num 2)]]\<rparr>"

definition ex_no_egrid :: dataframe where
  "ex_no_egrid =
     \<lparr>columns = [''FacilityID'', ''NERC''],
      rows = [mk_row [(''FacilityID'', Num 1), (''NERC'', Str ''TRE'')],
              mk_row [(''FacilityID'', Num 1)]]\<rparr>"

definition ex_ba :: ba_codes where
  "ex_ba =
     \<lparr>BA_Name = (\<lambda>v. if v = Str ''ERCO'' then Some (Str ''Electric Reliability Council of Texas'') else None),
      FERC_Region = (\<lambda>v. if v = Str ''ERCO'' then Some (Str ''ERCOT'') else None),
      EIA_Region = (\<lambda>v. if v = Str ''ERCO'' then Some (Str ''Texas'') else None)\<rparr>"

text \<open>
  Two plants: the first generates 90 percent from its designated fuel category, the
  second 40 percent.
\<close>

definition ex_pl :: dataframe where
  "ex_pl =
     \<lparr>columns = [''eGRID_ID'', ''NERC'', ''Balancing Authority Code'', ''Balancing Authority Name'',
                 ''Subregion'', ''FuelCategory'', ''PrimaryFuel'',
                 ''PercentGenerationfromDesignatedFuelCategory'', ''stage_code''],
      rows = [mk_row [(''eGRID_ID'', Num 1), (''NERC'', Str ''TRE''),
                      (''Balancing Authority Code'', Str ''ERCO''),
                      (''Balancing Authority Name'', Str ''ERCOT''), (''Subregion'', Str ''ERCT''),
                      (''FuelCategory'', Str ''GAS''), (''PrimaryFuel'', Str ''NG''),
                      (''PercentGenerationfromDesignatedFuelCategory'', Num (9 / 10)),
                      (''stage_code'', Str ''Power plant'')],
              mk_row [(''eGRID_ID'', Num 2), (''NERC'', Str ''TRE''),
                      (''Balancing Authority Code'', Str ''ERCO''),
                      (''Balancing Authority Name'', Str ''ERCOT''), (''Subregion'', Str ''ERCT''),
                      (''FuelCategory'', Str ''COAL''), (''PrimaryFuel'', Str ''BIT''),
                      (''PercentGenerationfromDesignatedFuelCategory'', Num (4 / 10)),
                      (''stage_code'', Str ''Power plant'')]]\<rparr>"

definition ex_up :: dataframe where
  "ex_up =
     \<lparr>columns = [''plant_id'', ''FuelCategory'', ''stage_code''],
      rows = [mk_row [(''plant_id'', Num 1), (''FuelCategory'', Str ''CONSTRUCTION''),
                      (''stage_code'', Str ''Upstream construction'')],
              mk_row [(''plant_id'', Num 2), (''FuelCategory'', Str ''COAL''),
                      (''stage_code'', Str ''Coal mining'')]]\<rparr>"

definition ex_cfg :: "bool \<Rightarrow> model_config" where
  "ex_cfg keep =
     \<lparr>keep_mixed_plant_category = keep,
      min_plant_percent_generation_from_primary_fuel_category = 50\<rparr>"

section \<open>The upstream flow mapper (combinator.concat\_map\_upstream\_databases)\<close>

text \<open>
  The upstream tables have a fixed schema, so their rows are records with typed, nullable
  fields.  The four fields \<open>_orig\<close> are columns that the function itself sets; what a row
  of an input table holds there is overwritten, as the assignment of a column is.
\<close>

record upstream_row =
  fuel_type :: "string option"
  stage_code :: "string option"
  FlowName :: "string option"
  Compartment :: "string option"
  Compartment_path :: "string option"
  Unit :: "string option"
  input :: "bool option"
  plant_id :: "int option"
  FlowAmount :: "real option"
  quantity :: "real option"
  Electricity :: "real option"
  FlowName_orig :: "string option"
  Compartment_orig :: "string option"
  Compartment_path_orig :: "string option"
  Unit_orig :: "string option"

text \<open>
  An upstream table: which of the optional columns it has, and its rows.  A field of
  a column that the table does not have is not looked at.
\<close>

record upstream_table =
  has_Compartment_path :: bool
  has_input :: bool
  has_Electricity :: bool
  up_rows :: "upstream_row list"

text \<open>A positional argument: a data frame, or anything else, which the function skips.\<close>

datatype arg = DataFrame upstream_table | NotADataFrame

text \<open>The dictionary \<open>compartment_mapping\<close>.\<close>

definition compartment_mapping :: "string \<Rightarrow> string option" where
  "compartment_mapping c =
     (if c = ''air'' then Some ''emission/air''
      else if c = ''water'' then Some ''emission/water''
      else if c = ''ground'' then Some ''emission/ground''
      else if c = ''soil'' then Some ''emission/ground''
      else if c = ''resource'' then Some ''resource''
      else if c = ''NETL database/emissions'' then Some ''NETL database/emissions''
      else if c = ''NETL database/resources'' then Some ''NETL database/resources''
      else None)"

text \<open>
  The loop over the arguments: a table without the column \<open>Compartment_path\<close> gets it
  from its compartments through the dictionary.
\<close>

definition with_compartment_path :: "upstream_table \<Rightarrow> upstream_table" where
  "with_compartment_path df =
     (if has_Compartment_path df then df
      else df\<lparr>has_Compartment_path := True,
              up_rows := map (\<lambda>r. r\<lparr>Compartment_path :=
                                          (case Compartment r of
                                             None \<Rightarrow> None
                                           | Some c \<Rightarrow> compartment_mapping c)\<rparr>)
                           (up_rows df)\<rparr>)"

fun upstream_df_list :: "arg list \<Rightarrow> upstream_table list" where
  "upstream_df_list [] = []"
| "upstream_df_list (DataFrame df # args) = with_compartment_path df # upstream_df_list args"
| "upstream_df_list (NotADataFrame # args) = upstream_df_list args"

text \<open>
  \<open>pd.concat(upstream_df_list, ignore_index=True, sort=False)\<close>: the result has a column
  when one of the tables has it, and the rows of a table without it are null there.
\<close>

definition concat_rows :: "upstream_table list \<Rightarrow> upstream_row list" where
  "concat_rows dfs =
     concat (map (\<lambda>df. map (\<lambda>r. r\<lparr>input := (if has_input df then input r else None),
                                       Electricity := (if has_Electricity df then Electricity r
                                                       else None)\<rparr>)
                           (up_rows df)) dfs)"

text \<open>
  The preparation for the merge: the original values are kept in the columns \<open>_orig\<close>,
  flow name, compartment and compartment path are lower-cased and stripped on the
  right, and a null unit becomes \<open><blank>\<close>.
\<close>

definition normalize :: "string option \<Rightarrow> string option" where
  "normalize x = map_option (\<lambda>s. rstrip (lower s)) x"

definition prepare_row :: "upstream_row \<Rightarrow> upstream_row" where
  "prepare_row r =
     r\<lparr>FlowName_orig := FlowName r,
       Compartment_orig := Compartment r,
       Compartment_path_orig := Compartment_path r,
       Unit_orig := Unit r,
       FlowName := normalize (FlowName r),
       Compartment := normalize (Compartment r),
       Compartment_path := normalize (Compartment_path r),
       Unit := (case Unit r of None \<Rightarrow> Some ''<blank>'' | Some u \<Rightarrow> Some u)\<rparr>"

text \<open>
  The values of a row in the columns \<open>groupby_cols\<close>, in that order.  pandas leaves a
  row with a null in one of these columns out of every group.
\<close>

type_synonym group_key =
  "string \<times> string \<times> string \<times> string \<times> bool \<times> int \<times> string \<times> string \<times> string \<times> string \<times> string"

definition group_key :: "upstream_row \<Rightarrow> group_key option" where
  "group_key r =
     (case (fuel_type r, stage_code r, FlowName r, Compartment r, input r, plant_id r,
            Compartment_path r, Unit r, FlowName_orig r, Compartment_path_orig r, Unit_orig r) of
        (Some a, Some b, Some c, Some d, Some e, Some f, Some g, Some h, Some i, Some j, Some k)
          \<Rightarrow> Some (a, b, c, d, e, f, g, h, i, j, k)
      | _ \<Rightarrow> None)"

text \<open>
  The running aggregate of one group: the sum of the amounts, and the sums and counts
  of the quantities and of the electricity values.  A null adds nothing.
\<close>

record agg =
  amount_sum :: real
  quantity_sum :: real
  quantity_count :: nat
  electricity_sum :: real
  electricity_count :: nat

definition agg_empty :: agg where
  "agg_empty = \<lparr>amount_sum = 0, quantity_sum = 0, quantity_count = 0,
                 electricity_sum = 0, electricity_count = 0\<rparr>"

definition agg_add :: "agg \<Rightarrow> upstream_row \<Rightarrow> agg" where
  "agg_add a r =
     \<lparr>amount_sum = amount_sum a + (case FlowAmount r of None \<Rightarrow> 0 | Some x \<Rightarrow> x),
      quantity_sum = quantity_sum a + (case quantity r of None \<Rightarrow> 0 | Some x \<Rightarrow> x),
      quantity_count = quantity_count a + (case quantity r of None \<Rightarrow> 0 | Some x \<Rightarrow> 1),
      electricity_sum = electricity_sum a + (case Electricity r of None \<Rightarrow> 0 | Some x \<Rightarrow> x),
      electricity_count = electricity_count a + (case Electricity r of None \<Rightarrow> 0 | Some x \<Rightarrow> 1)\<rparr>"

text \<open>
  One pass over the rows: each row is added to the aggregate of its group, a row
  without a key to none.
\<close>

fun add_to_group :: "'k \<Rightarrow> upstream_row \<Rightarrow> ('k \<times> agg) list \<Rightarrow> ('k \<times> agg) list" where
  "add_to_group k r [] = [(k, agg_add agg_empty r)]"
| "add_to_group k r ((k', a) # gs) =
     (if k' = k then (k', agg_add a r) # gs else (k', a) # add_to_group k r gs)"

definition group_step ::
  "(upstream_row \<Rightarrow> 'k option) \<Rightarrow> ('k \<times> agg) list \<Rightarrow> upstream_row \<Rightarrow> ('k \<times> agg) list" where
  "group_step key gs r = (case key r of None \<Rightarrow> gs | Some k \<Rightarrow> add_to_group k r gs)"

text \<open>
  A row of the grouped table: the key, the summed amount, and the means, null for a
  group without a value.
\<close>

record grouped_row =
  g_key :: group_key
  g_FlowAmount :: "real option"
  g_quantity :: "real option"
  g_Electricity :: "real option"

definition mean_of :: "real \<Rightarrow> nat \<Rightarrow> real option" where
  "mean_of s n = (if n = 0 then None else Some (s / real n))"

definition finish_group :: "group_key \<times> agg \<Rightarrow> grouped_row" where
  "finish_group g =
     \<lparr>g_key = fst g,
      g_FlowAmount = Some (amount_sum (snd g)),
      g_quantity = mean_of (quantity_sum (snd g)) (quantity_count (snd g)),
      g_Electricity = mean_of (electricity_sum (snd g)) (electricity_count (snd g))\<rparr>"

text \<open>
  \<open>upstream_df.groupby(groupby_cols, as_index=False).agg({"FlowAmount": "sum",
  "quantity": "mean", "Electricity": "mean"})\<close>: one row for each group, in the order of
  the keys.
\<close>

definition groupby_agg :: "upstream_row list \<Rightarrow> grouped_row list" where
  "groupby_agg rs = map finish_group (sort_key fst (foldl (group_step group_key) [] rs))"

text \<open>
  An entry of the flow mapping \<open>fedefl.get_flowmapping('eLCI')\<close>, an external table; the
  columns that the function reads.
\<close>

record flow_mapping_entry =
  SourceFlowName :: string
  SourceFlowContext :: string
  TargetFlowName :: string
  TargetFlowUUID :: string
  TargetFlowContext :: string
  TargetUnit :: string
  ConversionFactor :: real

text \<open>
  A row after the left merge with the flow mapping: the grouped row and the entry it
  matched, none for a flow without a mapping.  The target columns are renamed to
  \<open>FlowName\<close>, \<open>FlowUUID\<close>, \<open>Compartment\<close> and \<open>Unit\<close>.
\<close>

record mapped_row =
  m_grouped :: grouped_row
  m_target :: "flow_mapping_entry option"

definition g_FlowName :: "grouped_row \<Rightarrow> string" where
  "g_FlowName g = (case g_key g of (a, b, c, d, e, f, g, h, i, j, k) \<Rightarrow> c)"

definition g_Compartment_path :: "grouped_row \<Rightarrow> string" where
  "g_Compartment_path g = (case g_key g of (a, b, c, d, e, f, g, h, i, j, k) \<Rightarrow> g)"

definition g_plant_id :: "grouped_row \<Rightarrow> int" where
  "g_plant_id g = (case g_key g of (a, b, c, d, e, f, g, h, i, j, k) \<Rightarrow> f)"

definition g_fuel_type :: "grouped_row \<Rightarrow> string" where
  "g_fuel_type g = (case g_key g of (a, b, c, d, e, f, g, h, i, j, k) \<Rightarrow> a)"

definition g_stage_code :: "grouped_row \<Rightarrow> string" where
  "g_stage_code g = (case g_key g of (a, b, c, d, e, f, g, h, i, j, k) \<Rightarrow> b)"

definition g_input :: "grouped_row \<Rightarrow> bool" where
  "g_input g = (case g_key g of (a, b, c, d, e, f, g, h, i, j, k) \<Rightarrow> e)"

definition g_FlowName_orig :: "grouped_row \<Rightarrow> string" where
  "g_FlowName_orig g = (case g_key g of (a, b, c, d, e, f, g, h, i, j, k) \<Rightarrow> i)"

definition g_Compartment_path_orig :: "grouped_row \<Rightarrow> string" where
  "g_Compartment_path_orig g = (case g_key g of (a, b, c, d, e, f, g, h, i, j, k) \<Rightarrow> j)"

definition g_Unit_orig :: "grouped_row \<Rightarrow> string" where
  "g_Unit_orig g = (case g_key g of (a, b, c, d, e, f, g, h, i, j, k) \<Rightarrow> k)"

text \<open>
  \<open>pd.merge(left=upstream_df_grp, right=flow_mapping, left_on=["FlowName",
  "Compartment_path"], right_on=["SourceFlowName", "SourceFlowContext"], how="left")\<close>,
  after the source flow names of the mapping have been lower-cased.
\<close>

definition merge_flow_mapping :: "flow_mapping_entry list \<Rightarrow> grouped_row list \<Rightarrow> mapped_row list" where
  "merge_flow_mapping flow_mapping grp =
     concat (map (\<lambda>g. let ms = filter (\<lambda>e. lower (SourceFlowName e) = g_FlowName g \<and>
                                           SourceFlowContext e = g_Compartment_path g)
                                   flow_mapping
                       in if ms = [] then [\<lparr>m_grouped = g, m_target = None\<rparr>]
                          else map (\<lambda>e. \<lparr>m_grouped = g, m_target = Some e\<rparr>) ms) grp)"

text \<open>
  \<open>drop_duplicates(subset=["plant_id", "FlowName", "Compartment_path", "FlowAmount"])\<close>,
  where \<open>FlowName\<close> is now the target flow name, and \<open>dropna(subset=["FlowName"])\<close>.
\<close>

definition duplicate_key :: "mapped_row \<Rightarrow> int \<times> string option \<times> string \<times> real option" where
  "duplicate_key m =
     (g_plant_id (m_grouped m), map_option TargetFlowName (m_target m),
      g_Compartment_path (m_grouped m), g_FlowAmount (m_grouped m))"

fun drop_duplicate_rows :: "(int \<times> string option \<times> string \<times> real option) list \<Rightarrow> mapped_row list \<Rightarrow> mapped_row list" where
  "drop_duplicate_rows seen [] = []"
| "drop_duplicate_rows seen (m # ms) =
     (if duplicate_key m \<in> set seen then drop_duplicate_rows seen ms
      else m # drop_duplicate_rows (duplicate_key m # seen) ms)"

definition dropna_FlowName :: "mapped_row list \<Rightarrow> mapped_row list" where
  "dropna_FlowName ms = filter (\<lambda>m. m_target m \<noteq> None) ms"

text \<open>The mapped table before the final columns are selected.\<close>

definition upstream_mapped :: "flow_mapping_entry list \<Rightarrow> upstream_row list \<Rightarrow> mapped_row list" where
  "upstream_mapped flow_mapping upstream_df =
     dropna_FlowName (drop_duplicate_rows []
        (merge_flow_mapping flow_mapping (groupby_agg upstream_df)))"

text \<open>\<open>Series.str.contains(sub)\<close> for a pattern without special characters.\<close>

fun contains :: "string \<Rightarrow> string \<Rightarrow> bool" where
  "contains sub [] = (sub = [])"
| "contains sub (c # cs) = (take (length sub) (c # cs) = sub \<or> contains sub cs)"

text \<open>
  A row of the returned table, in the final columns.  The table has the column
  \<open>Electricity\<close> only when an upstream table has it; the field is \<open>None\<close> in every row
  otherwise.
\<close>

record final_row =
  f_plant_id :: int
  f_FuelCategory :: string
  f_stage_code :: string
  f_FlowName :: string
  f_Compartment :: string
  f_Compartment_path :: string
  f_FlowUUID :: string
  f_Unit :: string
  f_ElementaryFlowPrimeContext :: string
  f_FlowAmount :: "real option"
  f_quantity :: "real option"
  f_Source :: string
  f_Year :: int
  f_Electricity :: "real option"
  f_input :: bool

text \<open>
  The conversion of the amount and the added columns, for a row with a target.
  \<open>str_upper\<close> is Python's \<open>str.upper\<close> and \<open>eia_gen_year\<close> the year of the configuration.
\<close>

definition final_row_of :: "(string \<Rightarrow> string) \<Rightarrow> int \<Rightarrow> grouped_row \<Rightarrow> flow_mapping_entry \<Rightarrow> final_row" where
  "final_row_of str_upper eia_gen_year g e =
     \<lparr>f_plant_id = g_plant_id g,
      f_FuelCategory = str_upper (g_fuel_type g),
      f_stage_code = g_stage_code g,
      f_FlowName = TargetFlowName e,
      f_Compartment = TargetFlowContext e,
      f_Compartment_path = g_Compartment_path g,
      f_FlowUUID = TargetFlowUUID e,
      f_Unit = TargetUnit e,
      f_ElementaryFlowPrimeContext =
         (if contains ''resource'' (TargetFlowContext e) then ''resource'' else ''emission''),
      f_FlowAmount = map_option (\<lambda>x. x * ConversionFactor e) (g_FlowAmount g),
      f_quantity = g_quantity g,
      f_Source = ''netl'',
      f_Year = eia_gen_year,
      f_Electricity = g_Electricity g,
      f_input = g_input g\<rparr>"

definition final_rows :: "(string \<Rightarrow> string) \<Rightarrow> int \<Rightarrow> mapped_row list \<Rightarrow> final_row list" where
  "final_rows str_upper eia_gen_year ms =
     List.map_filter (\<lambda>m. map_option (final_row_of str_upper eia_gen_year (m_grouped m))
                                        (m_target m)) ms"

text \<open>
  The flow lists of the option \<open>group_name\<close>.  The keys of a pandas grouping are tuples;
  a tuple of texts is modelled as the list of its components, so that tuples of
  different lengths are different values, as in Python.  \<open>unique_orig\<close> groups the
  concatenated rows by the two original columns, \<open>unique_mapped\<close> groups the mapped table
  by six columns; a row with a null in a grouping column is in no group.
\<close>

definition unique_orig :: "upstream_row list \<Rightarrow> string list list" where
  "unique_orig upstream_df =
     remdups (List.map_filter
       (\<lambda>r. case (FlowName_orig r, Compartment_path_orig r) of
               (Some n, Some p) \<Rightarrow> Some [n, p]
             | _ \<Rightarrow> None) upstream_df)"

definition unique_mapped :: "mapped_row list \<Rightarrow> string list list" where
  "unique_mapped ms =
     remdups (List.map_filter
       (\<lambda>m. case m_target m of
               None \<Rightarrow> None
             | Some e \<Rightarrow> Some [g_FlowName_orig (m_grouped m), g_Compartment_path_orig (m_grouped m),
                             g_Unit_orig (m_grouped m), TargetFlowName e, TargetFlowContext e,
                             TargetUnit e]) ms)"

text \<open>
  \<open>unmatched_list = sorted(list(unique_orig_set - unique_mapped_set))\<close> and
  \<open>matched_list = sorted(list(unique_mapped_set))\<close>.
\<close>

definition unmatched_list :: "string list list \<Rightarrow> string list list \<Rightarrow> string list list" where
  "unmatched_list orig mapped = sort (filter (\<lambda>x. x \<notin> set mapped) orig)"

definition matched_list :: "string list list \<Rightarrow> string list list" where
  "matched_list mapped = sort mapped"

text \<open>
  \<open>concat_map_upstream_databases(*arg, **kwargs)\<close>.  \<open>group_name\<close> is \<open>None\<close> when the
  keyword is not given.  The result is the mapped table and, with the keyword, the list
  of unmatched and the list of matched flows; the text file that the function writes
  with the keyword is not modelled.  With no data frame among the arguments \<open>pd.concat\<close>
  raises \<open>ValueError\<close>; when no table has the column \<open>input\<close> the grouping raises
  \<open>KeyError\<close>.
\<close>

definition concat_map_upstream_databases ::
  "flow_mapping_entry list \<Rightarrow> (string \<Rightarrow> string) \<Rightarrow> int \<Rightarrow> arg list \<Rightarrow> string option
     \<Rightarrow> error + final_row list \<times> (string list list \<times> string list list) option" where
  "concat_map_upstream_databases flow_mapping str_upper eia_gen_year args group_name =
     (let dfs = upstream_df_list args
      in if dfs = [] then Inl ValueError
         else if \<not> list_ex has_input dfs then Inl KeyError
         else
           let upstream_df = map prepare_row (concat_rows dfs);
               upstream_mapped_df = upstream_mapped flow_mapping upstream_df;
               final = final_rows str_upper eia_gen_year upstream_mapped_df
           in (case group_name of
                 None \<Rightarrow> Inr (final, None)
               | Some name \<Rightarrow>
                   Inr (final,
                        Some (unmatched_list (unique_orig upstream_df)
                                (unique_mapped upstream_mapped_df),
                              matched_list (unique_mapped upstream_mapped_df)))))"

subsection \<open>Descriptions used in the statements\<close>

text \<open>The rows of a group, and the sum and the mean that the claim speaks of.\<close>

definition rows_of_group :: "group_key \<Rightarrow> upstream_row list \<Rightarrow> upstream_row list" where
  "rows_of_group k rs = filter (\<lambda>r. group_key r = Some k) rs"

definition amounts :: "upstream_row list \<Rightarrow> real list" where
  "amounts rs = List.map_filter FlowAmount rs"

definition quantities :: "upstream_row list \<Rightarrow> real list" where
  "quantities rs = List.map_filter quantity rs"

definition mean :: "real list \<Rightarrow> real option" where
  "mean xs = (if xs = [] then None else Some (sum_list xs / real (length xs)))"

subsection \<open>An upstream table and a flow mapping\<close>

text \<open>
  A mapping with an entry for carbon dioxide to air and none for mercury, and a table
  of a coal mine: two rows of carbon dioxide for plant 1, a row of mercury, and a row
  of carbon dioxide without a plant.  The table has no column \<open>Compartment_path\<close>.
\<close>

definition ex_mapping :: "flow_mapping_entry list" where
  "ex_mapping =
     [\<lparr>SourceFlowName = ''CO2'', SourceFlowContext = ''emission/air'',
       TargetFlowName = ''Carbon dioxide'', TargetFlowUUID = ''b6f010fb'',
       TargetFlowContext = ''emission/air'', TargetUnit = ''kg'', ConversionFactor = 1\<rparr>,
      \<lparr>SourceFlowName = ''Coal'', SourceFlowContext = ''resource'',
       TargetFlowName = ''Coal, hard'', TargetFlowUUID = ''9a122a0e'',
       TargetFlowContext = ''resource/ground'', TargetUnit = ''kg'', ConversionFactor = 1000\<rparr>]"

definition up_row ::
  "string \<Rightarrow> string \<Rightarrow> string option \<Rightarrow> int option \<Rightarrow> real \<Rightarrow> real option \<Rightarrow> upstream_row" where
  "up_row name cpt u pid amount q =
     \<lparr>fuel_type = Some ''Coal'', stage_code = Some ''Mining'', FlowName = Some name,
      Compartment = Some cpt, Compartment_path = None, Unit = u, input = Some False,
      plant_id = pid, FlowAmount = Some amount, quantity = q, Electricity = None,
      FlowName_orig = None, Compartment_orig = None, Compartment_path_orig = None,
      Unit_orig = None\<rparr>"

definition ex_table :: upstream_table where
  "ex_table =
     \<lparr>has_Compartment_path = False, has_input = True, has_Electricity = False,
      up_rows = [up_row ''CO2'' ''air'' (Some ''kg'') (Some 1) 2 (Some 10),
                 up_row ''CO2'' ''air'' (Some ''kg'') (Some 1) 3 (Some 20),
                 up_row ''CO2'' ''air'' (Some ''kg'') (Some 1) 4 None,
                 up_row ''Mercury'' ''water'' (Some ''kg'') (Some 1) 6 None,
                 up_row ''CO2'' ''air'' (Some ''kg'') None 5 None]\<rparr>"

text \<open>The rows of the example when they are grouped, and the key of its first row.\<close>

definition ex_upstream_df :: "upstream_row list" where
  "ex_upstream_df = map prepare_row (concat_rows (upstream_df_list [DataFrame ex_table]))"

definition ex_key :: group_key where
  "ex_key = (''Coal'', ''Mining'', ''co2'', ''air'', False, 1, ''emission/air'', ''kg'',
             ''CO2'', ''emission/air'', ''kg'')"

section \<open>Properties of the serializer\<close>

subsection \<open>Lower-casing and stripping commute\<close>

lemma is_space_lower_char [simp]: "is_space (lower_char c) = is_space c"
  by (auto simp add: is_space_def lower_char_def Let_def)

lemma dropWhile_map_lower:
  "dropWhile is_space (map lower_char s) = map lower_char (dropWhile is_space s)"
  by (induction s) auto

lemma lower_lstrip: "lower (lstrip s) = lstrip (lower s)"
  by (simp add: lower_def lstrip_def dropWhile_map_lower)

lemma lower_rstrip: "lower (rstrip s) = rstrip (lower s)"
  by (simp add: lower_def rstrip_def dropWhile_map_lower rev_map)

lemma lower_strip: "lower (strip s) = strip (lower s)"
  by (simp add: strip_def lower_rstrip lower_lstrip)

lemma lower_append: "lower (a @ b) = lower a @ lower b"
  by (simp add: lower_def)

lemma lower_join: "lower (join sep xs) = join (lower sep) (map lower xs)"
  by (induction sep xs rule: join.induct) (simp_all add: lower_append, simp add: lower_def)

lemma uid_lower:
  "uid uuid3 args = uuid3 (join (lower ''/'') (map (\<lambda>a. strip (lower a)) args))"
  by (simp add: uid_def lower_join lower_strip comp_def)

lemma strip_empty_iff: "strip s = [] \<longleftrightarrow> list_all is_space s"
proof
  assume "strip s = []"
  then have all: "\<forall>c \<in> set (dropWhile is_space s). is_space c"
    by (simp add: strip_def rstrip_def lstrip_def)
  have "dropWhile is_space s = []"
  proof (rule ccontr)
    assume ne: "dropWhile is_space s \<noteq> []"
    then have "\<not> is_space (hd (dropWhile is_space s))" by (rule hd_dropWhile)
    moreover from ne have "hd (dropWhile is_space s) \<in> set (dropWhile is_space s)" by simp
    ultimately show False using all by blast
  qed
  then show "list_all is_space s"
    by (simp add: dropWhile_eq_Nil_conv list_all_iff)
next
  assume "list_all is_space s"
  then have "dropWhile is_space s = []"
    by (simp add: dropWhile_eq_Nil_conv list_all_iff)
  then show "strip s = []"
    by (simp add: strip_def rstrip_def lstrip_def del: dropWhile_eq_Nil_conv)
qed

lemma distinct_count_list:
  "distinct xs \<Longrightarrow> count_list xs x = (if x \<in> set xs then 1 else 0)"
  by (induction xs) auto

text \<open>Rules that let the simplifier compare a computed character with a literal.\<close>

lemma char_eval:
  "char_of (n::nat) =
     Char (odd n) (odd (n div 2)) (odd (n div 4)) (odd (n div 8))
          (odd (n div 16)) (odd (n div 32)) (odd (n div 64)) (odd (n div 128))"
  by (simp add: char_of_def bit_iff_odd)

lemmas str_eval = lower_def lower_char_def strip_def lstrip_def
  rstrip_def is_space_def char_eval

subsection \<open>The written sequence\<close>

lemma written_categories_append [simp]:
  "written_categories (xs @ ys) = written_categories xs @ written_categories ys"
  by (induction xs rule: written_categories.induct) simp_all

lemma written_processes_append [simp]:
  "written_processes (xs @ ys) = written_processes xs @ written_processes ys"
  by (induction xs rule: written_processes.induct) simp_all

lemma good_mono: "good uuid3 D ws \<Longrightarrow> D \<subseteq> D' \<Longrightarrow> good uuid3 D' ws"
  unfolding good_def by blast

text \<open>One iteration of \<open>_category\<close> keeps the invariant and hands on the right parent.\<close>

lemma category_step_good:
  assumes "good uuid3 D ws" "parts \<in> D" "i < length parts"
    and "category_step uuid3 PROCESS parts (parent_ref uuid3 parts i, ws) i = (par, ws')"
  shows "par = parent_ref uuid3 parts (Suc i) \<and> good uuid3 D ws' \<and>
         snd ws' = insert (uid uuid3 (ModelType_value PROCESS # take (i + 1) parts)) (snd ws) \<and>
         written_processes (fst ws') = written_processes (fst ws)"
proof (cases ws)
  case (Pair written created)
  show ?thesis
  proof (cases "uid uuid3 (ModelType_value PROCESS # take (i + 1) parts) \<in> created")
    case True
    with assms Pair show ?thesis
      by (auto simp: category_step_def Let_def parent_ref_def)
  next
    case False
    have new: "category_for uuid3 parts i =
       \<lparr>cat_id = uid uuid3 (ModelType_value PROCESS # take (i + 1) parts), cat_model_type = PROCESS,
         cat_name = strip (parts ! i), cat_category = parent_ref uuid3 parts i\<rparr>"
      by (simp add: category_for_def)
    from assms(4) Pair False
    have par: "par = parent_ref uuid3 parts (Suc i)"
      and ws': "ws' = (written @ [CategoryE (category_for uuid3 parts i)],
                       insert (uid uuid3 (ModelType_value PROCESS # take (i + 1) parts)) created)"
      by (auto simp: category_step_def Let_def parent_ref_def new)
    have "good uuid3 D ws'"
      using assms(1-3) Pair False unfolding ws' good_def
      by (auto simp: category_for_def)
    with par ws' Pair show ?thesis by simp
  qed
qed

lemma category_loop_good:
  assumes "good uuid3 D ws" "parts \<in> D" "k \<le> length parts"
  shows "\<exists>ws'. foldl (category_step uuid3 PROCESS parts) (None, ws) [0..<k]
            = (parent_ref uuid3 parts k, ws') \<and>
          good uuid3 D ws' \<and>
          snd ws' = snd ws \<union>
            (\<lambda>i. uid uuid3 (ModelType_value PROCESS # take (i + 1) parts)) ` {i. i < k} \<and>
          written_processes (fst ws') = written_processes (fst ws)"
  using assms(3)
proof (induction k)
  case 0
  with assms(1) show ?case by (simp add: parent_ref_def)
next
  case (Suc k)
  then obtain ws1 where
    run: "foldl (category_step uuid3 PROCESS parts) (None, ws) [0..<k]
            = (parent_ref uuid3 parts k, ws1)"
    and g1: "good uuid3 D ws1"
    and c1: "snd ws1 = snd ws \<union>
            (\<lambda>i. uid uuid3 (ModelType_value PROCESS # take (i + 1) parts)) ` {i. i < k}"
    and p1: "written_processes (fst ws1) = written_processes (fst ws)"
    by auto
  obtain par ws2 where
    st: "category_step uuid3 PROCESS parts (parent_ref uuid3 parts k, ws1) k = (par, ws2)"
    by (cases "category_step uuid3 PROCESS parts (parent_ref uuid3 parts k, ws1) k") auto
  from Suc.prems have "k < length parts" by simp
  from category_step_good [OF g1 assms(2) this st]
  have par: "par = parent_ref uuid3 parts (Suc k)" and g2: "good uuid3 D ws2"
    and c2: "snd ws2 = insert (uid uuid3 (ModelType_value PROCESS # take (k + 1) parts)) (snd ws1)"
    and p2: "written_processes (fst ws2) = written_processes (fst ws1)"
    by simp_all
  have "{i. i < Suc k} = insert k {i. i < k}" by auto
  with c1 c2 have c3: "snd ws2 = snd ws \<union>
            (\<lambda>i. uid uuid3 (ModelType_value PROCESS # take (i + 1) parts)) ` {i. i < Suc k}"
    by auto
  have "foldl (category_step uuid3 PROCESS parts) (None, ws) [0..<Suc k] = (par, ws2)"
    using run st by simp
  with par g2 c3 p1 p2 show ?case by simp
qed

lemma category_blank:
  "blank_category path \<Longrightarrow> category uuid3 path mtype ws = (None, ws)"
  by (cases path) (simp_all add: category_def blank_category_def strip_empty_iff)

lemma category_parts_blank: "blank_category (p_category d) \<Longrightarrow> category_parts d = []"
  by (cases "p_category d") (simp_all add: category_parts_def blank_category_def)

lemma set_category_uids:
  "set (category_uids uuid3 d) =
     (\<lambda>i. uid uuid3 (ModelType_value PROCESS # take (i + 1) (category_parts d)))
       ` {i. i < length (category_parts d)}"
  by (auto simp: category_uids_def)

lemma category_good:
  assumes "good uuid3 D ws" "category_parts d \<in> D \<or> blank_category (p_category d)"
  shows "\<exists>r ws'. category uuid3 (p_category d) PROCESS ws = (r, ws') \<and>
          good uuid3 D ws' \<and>
          snd ws' = snd ws \<union> set (category_uids uuid3 d) \<and>
          written_processes (fst ws') = written_processes (fst ws)"
proof (cases "blank_category (p_category d)")
  case True
  then show ?thesis
    using assms(1) by (simp add: category_blank set_category_uids category_parts_blank)
next
  case False
  then obtain s where s: "p_category d = PStr s" "\<not> list_all is_space s"
    by (cases "p_category d") (auto simp: blank_category_def)
  then have parts: "category_parts d = split_on CHR ''/'' s"
    by (simp add: category_parts_def)
  with assms(2) False have "split_on CHR ''/'' s \<in> D" by simp
  from category_loop_good [OF assms(1) this order_refl] s parts
  show ?thesis
    by (auto simp: category_def Let_def set_category_uids strip_empty_iff)
qed

text \<open>The body of the loop of \<open>write\<close> keeps the invariant and appends one process.\<close>

lemma write_process_good:
  assumes "good uuid3 D ws" "category_parts d \<in> D \<or> blank_category (p_category d)"
  shows "\<exists>p. good uuid3 D (write_process uuid3 ws d) \<and>
          snd (write_process uuid3 ws d) = snd ws \<union> set (category_uids uuid3 d) \<and>
          written_processes (fst (write_process uuid3 ws d)) = written_processes (fst ws) @ [p] \<and>
          proc_id p = process_uid uuid3 d \<and>
          (blank_category (p_category d) \<longrightarrow> proc_category p = None)"
proof -
  from category_good [OF assms] obtain r ws' where
    c: "category uuid3 (p_category d) PROCESS ws = (r, ws')"
    and g: "good uuid3 D ws'"
    and u: "snd ws' = snd ws \<union> set (category_uids uuid3 d)"
    and p: "written_processes (fst ws') = written_processes (fst ws)"
    by blast
  have r: "blank_category (p_category d) \<longrightarrow> r = None"
    using c by (auto simp: category_blank)
  from g have "good uuid3 D (write_process uuid3 ws d)"
    by (simp add: write_process_def Let_def c good_def)
  with u p r show ?thesis
    by (simp add: write_process_def Let_def c process_uid_def)
qed

lemma write_loop_good:
  "\<exists>ps. good uuid3 (valid_parts ds) (foldl (write_process uuid3) ([], {}) ds) \<and>
     snd (foldl (write_process uuid3) ([], {}) ds) = (\<Union>d \<in> set ds. set (category_uids uuid3 d)) \<and>
     written_processes (fst (foldl (write_process uuid3) ([], {}) ds)) = ps \<and>
     length ps = length ds \<and>
     (\<forall>i < length ds. proc_id (ps ! i) = process_uid uuid3 (ds ! i) \<and>
         (blank_category (p_category (ds ! i)) \<longrightarrow> proc_category (ps ! i) = None))"
proof (induction ds rule: rev_induct)
  case Nil
  show ?case by (simp add: good_def)
next
  case (snoc d ds)
  let ?ws = "foldl (write_process uuid3) ([], {}) ds"
  from snoc obtain ps where
    g: "good uuid3 (valid_parts ds) ?ws"
    and u: "snd ?ws = (\<Union>d \<in> set ds. set (category_uids uuid3 d))"
    and ps: "written_processes (fst ?ws) = ps" "length ps = length ds"
    and each: "\<forall>i < length ds. proc_id (ps ! i) = process_uid uuid3 (ds ! i) \<and>
         (blank_category (p_category (ds ! i)) \<longrightarrow> proc_category (ps ! i) = None)"
    by blast
  have "valid_parts ds \<subseteq> valid_parts (ds @ [d])"
    by (auto simp: valid_parts_def)
  with g have g': "good uuid3 (valid_parts (ds @ [d])) ?ws"
    by (rule good_mono)
  have "category_parts d \<in> valid_parts (ds @ [d]) \<or> blank_category (p_category d)"
    by (auto simp: valid_parts_def)
  from write_process_good [OF g' this] obtain p where
    g2: "good uuid3 (valid_parts (ds @ [d])) (write_process uuid3 ?ws d)"
    and u2: "snd (write_process uuid3 ?ws d) = snd ?ws \<union> set (category_uids uuid3 d)"
    and p2: "written_processes (fst (write_process uuid3 ?ws d)) = written_processes (fst ?ws) @ [p]"
    and id2: "proc_id p = process_uid uuid3 d"
    and b2: "blank_category (p_category d) \<longrightarrow> proc_category p = None"
    by blast
  have "\<forall>i < length (ds @ [d]). proc_id ((ps @ [p]) ! i) = process_uid uuid3 ((ds @ [d]) ! i) \<and>
         (blank_category (p_category ((ds @ [d]) ! i)) \<longrightarrow> proc_category ((ps @ [p]) ! i) = None)"
    using each ps(2) id2 b2 by (auto simp: nth_append less_Suc_eq)
  with g2 u2 p2 ps u show ?case
    by (auto simp: Un_commute)
qed

lemma written_process_ids:
  assumes "i < length ds"
  shows "length (written_processes (write_zip uuid3 ds)) = length ds"
    and "proc_id (written_processes (write_zip uuid3 ds) ! i) = process_uid uuid3 (ds ! i)"
    and "blank_category (p_category (ds ! i)) \<Longrightarrow>
           proc_category (written_processes (write_zip uuid3 ds) ! i) = None"
  using write_loop_good [of uuid3 ds] assms by (auto simp: write_zip_def)

lemma process_uid_lower:
  "process_uid uuid3 d =
     uuid3 (join ''/'' [''modeltype.process'',
                        strip (lower (py_str (p_category d))),
                        strip (lower (py_str (p_name d)))])"
proof -
  have "strip (lower (ModelType_str PROCESS)) = ''modeltype.process''"
    by (simp add: str_eval)
  moreover have "lower ''/'' = ''/''"
    by (simp add: str_eval)
  ultimately show ?thesis
    by (simp add: process_uid_def uid_lower)
qed

text \<open>
  C1.  The identifier of a written process is \<open>uuid3\<close> of the text made of the model-type
  tag, the lower-cased category path and the lower-cased name (each stripped), joined
  by \<open>/\<close>; so two processes, of the same run or of two runs, whose category paths
  and names agree after lower-casing are written with the same identifier.
\<close>

theorem process_identifier_deterministic:
  assumes "i < length ds1" and "j < length ds2"
    and "lower (py_str (p_category (ds1 ! i))) = lower (py_str (p_category (ds2 ! j)))"
    and "lower (py_str (p_name (ds1 ! i))) = lower (py_str (p_name (ds2 ! j)))"
  shows "proc_id (written_processes (write_zip uuid3 ds1) ! i) =
           uuid3 (join ''/'' [''modeltype.process'',
                              strip (lower (py_str (p_category (ds1 ! i)))),
                              strip (lower (py_str (p_name (ds1 ! i))))]) \<and>
         proc_id (written_processes (write_zip uuid3 ds1) ! i) =
           proc_id (written_processes (write_zip uuid3 ds2) ! j)"
  using assms by (simp add: written_process_ids(2) process_uid_lower)

theorem process_identifier_deterministic_witness:
  "proc_id (written_processes (write_zip id run_a) ! 0) = ''modeltype.process/utilities/power/coal plant'' \<and>
   proc_id (written_processes (write_zip id run_a) ! 0) =
     proc_id (written_processes (write_zip id run_b) ! 1)"
proof -
  have a: "p_category (run_a ! 0) = PStr ''Utilities/Power''" "p_name (run_a ! 0) = PStr ''Coal plant''"
    by (simp_all add: run_a_def)
  have b: "p_category (run_b ! 1) = PStr ''UTILITIES/POWER''" "p_name (run_b ! 1) = PStr ''COAL PLANT''"
    by (simp_all add: run_b_def)
  have h: "0 < length run_a" "1 < length run_b"
    "lower (py_str (p_category (run_a ! 0))) = lower (py_str (p_category (run_b ! 1)))"
    "lower (py_str (p_name (run_a ! 0))) = lower (py_str (p_name (run_b ! 1)))"
    unfolding a b by (simp_all add: run_a_def run_b_def str_eval)
  have e: "strip (lower ''Utilities/Power'') = ''utilities/power''"
    "strip (lower ''Coal plant'') = ''coal plant''"
    by (simp_all add: str_eval)
  note r = process_identifier_deterministic [OF h, of id]
  from r [THEN conjunct1]
  have "proc_id (written_processes (write_zip id run_a) ! 0)
          = ''modeltype.process/utilities/power/coal plant''"
    by (simp add: a e)
  with r [THEN conjunct2] show ?thesis by (rule_tac conjI)
qed

text \<open>
  C7.  In one run of \<open>write\<close>, the number of Category records written with a given
  identifier is one when it is the identifier of a prefix of the category path of one
  of the processes, and zero otherwise, however many processes share the prefix; and
  every Category record written is the record of such a prefix, whose parent
  reference carries the identifier, by the same scheme, of the prefix one segment
  shorter (none for the first segment).
\<close>

theorem category_created_once:
  "count_list (map cat_id (written_categories (write_zip uuid3 ds))) u =
     (if u \<in> (\<Union>d \<in> set ds. set (category_uids uuid3 d)) then 1 else 0) \<and>
   (\<forall>c \<in> set (written_categories (write_zip uuid3 ds)).
      \<exists>d \<in> set ds. \<exists>i < length (category_parts d). c = category_for uuid3 (category_parts d) i)"
proof -
  let ?ws = "foldl (write_process uuid3) ([], {}) ds"
  from write_loop_good [of uuid3 ds]
  have g: "good uuid3 (valid_parts ds) ?ws"
    and u: "snd ?ws = (\<Union>d \<in> set ds. set (category_uids uuid3 d))"
    by auto
  let ?ids = "map cat_id (written_categories (fst ?ws))"
  from g have d: "distinct ?ids" and s: "set ?ids = snd ?ws"
    by (simp_all add: good_def)
  have "count_list ?ids u = (if u \<in> set ?ids then 1 else 0)"
    using d by (simp add: distinct_count_list)
  then have count: "count_list ?ids u =
      (if u \<in> (\<Union>d \<in> set ds. set (category_uids uuid3 d)) then 1 else 0)"
    by (simp only: s u)
  from g have "\<forall>c \<in> set (written_categories (fst ?ws)).
      \<exists>d \<in> set ds. \<exists>i < length (category_parts d). c = category_for uuid3 (category_parts d) i"
    unfolding good_def valid_parts_def by blast
  with count show ?thesis by (simp add: write_zip_def)
qed

theorem category_created_once_witness:
  "count_list (map cat_id (written_categories (write_zip id run_a))) ''process/utilities/power'' = 1 \<and>
   count_list (map cat_id (written_categories (write_zip id run_a))) ''process/power'' = 0 \<and>
   length (written_categories (write_zip id run_a)) = 3 \<and>
   written_categories (write_zip id run_a) ! 1 = category_for id (category_parts (run_a ! 0)) 1"
proof -
  have w: "written_categories (write_zip id run_a) =
     [\<lparr>cat_id = ''process/utilities'', cat_model_type = PROCESS, cat_name = ''Utilities'',
        cat_category = None\<rparr>,
      \<lparr>cat_id = ''process/utilities/power'', cat_model_type = PROCESS, cat_name = ''Power'',
        cat_category = Some \<lparr>ref_id = ''process/utilities'', ref_name = ''Utilities'',
                              ref_category_path = [''Utilities'']\<rparr>\<rparr>,
      \<lparr>cat_id = ''process/utilities/power/gas'', cat_model_type = PROCESS, cat_name = ''Gas'',
        cat_category = Some \<lparr>ref_id = ''process/utilities/power'', ref_name = ''power'',
                              ref_category_path = [''utilities'', '' power '']\<rparr>\<rparr>]"
    by (simp add: run_a_def write_zip_def write_process_def category_def category_step_def
          uid_def str_eval Let_def)
  have p: "category_parts (run_a ! 0) = [''Utilities'', ''Power'']"
    "category_parts (run_a ! 1) = [''utilities'', '' power '', ''Gas'']"
    "category_parts (run_a ! 2) = []"
    by (simp_all add: run_a_def category_parts_def is_space_def)
  have c: "category_for id (category_parts (run_a ! 0)) 1 = written_categories (write_zip id run_a) ! 1"
    unfolding w p by (simp add: category_for_def parent_ref_def uid_def str_eval)
  have "map (category_uids id) run_a =
      [[''process/utilities'', ''process/utilities/power''],
       [''process/utilities'', ''process/utilities/power'', ''process/utilities/power/gas''], []]"
    using p by (simp add: run_a_def category_uids_def uid_def str_eval)
  then have "(\<Union>d \<in> set run_a. set (category_uids id d)) =
      {''process/utilities'', ''process/utilities/power'', ''process/utilities/power/gas''}"
    by (auto simp: run_a_def)
  then have u: "''process/utilities/power'' \<in> (\<Union>d \<in> set run_a. set (category_uids id d))"
    "''process/power'' \<notin> (\<Union>d \<in> set run_a. set (category_uids id d))"
    by simp_all
  note r1 = category_created_once [of id run_a "''process/utilities/power''", THEN conjunct1]
  note r2 = category_created_once [of id run_a "''process/power''", THEN conjunct1]
  from r1 u(1) have 1:
    "count_list (map cat_id (written_categories (write_zip id run_a))) ''process/utilities/power'' = 1"
    by simp
  from r2 u(2) have 2:
    "count_list (map cat_id (written_categories (write_zip id run_a))) ''process/power'' = 0"
    by simp
  have 3: "length (written_categories (write_zip id run_a)) = 3"
    by (simp add: w)
  from 1 2 3 c show ?thesis by simp
qed

text \<open>
  C9.  When the \<open>'category'\<close> of a process dictionary is not a string, or is a string
  that is empty or made of white space only, the body of the loop of \<open>write\<close> writes
  exactly one record, the process, with no category reference, and leaves the created
  set as it was; in the whole run the process written for that entry has no category
  reference.  The model has no failing branch on this path.
\<close>

theorem blank_category_tolerated:
  assumes "blank_category (p_category d)"
  shows "write_process uuid3 (written, created) d =
           (written @ [ProcessE \<lparr>proc_id = process_uid uuid3 d, proc_name = p_name d,
                                  proc_category = None,
                                  proc_exchanges = exchanges_loop 0
                                    (case p_exchanges d of None \<Rightarrow> [] | Some es \<Rightarrow> es)\<rparr>],
            created) \<and>
         (\<forall>ds i. i < length ds \<and> ds ! i = d \<longrightarrow>
            length (written_processes (write_zip uuid3 ds)) = length ds \<and>
            proc_category (written_processes (write_zip uuid3 ds) ! i) = None)"
  using assms
  by (auto simp: write_process_def Let_def category_blank process_uid_def written_process_ids)

theorem blank_category_tolerated_witness:
  "write_process id ([], {}) (run_a ! 2) =
     ([ProcessE \<lparr>proc_id = ''modeltype.process//loose'', proc_name = PStr ''Loose'',
                  proc_category = None, proc_exchanges = []\<rparr>], {}) \<and>
   proc_category (written_processes (write_zip id run_a) ! 2) = None \<and>
   proc_category (written_processes (write_zip id run_b) ! 0) = None"
proof -
  have b: "blank_category (p_category (run_a ! 2))" "blank_category (p_category (run_b ! 0))"
    by (simp_all add: run_a_def run_b_def blank_category_def is_space_def)
  have l: "2 < length run_a" "0 < length run_b"
    by (simp_all add: run_a_def run_b_def)
  have p: "process_uid id (run_a ! 2) = ''modeltype.process//loose''"
    "p_name (run_a ! 2) = PStr ''Loose''" "p_exchanges (run_a ! 2) = None"
    by (simp_all add: run_a_def process_uid_lower str_eval)
  from blank_category_tolerated [OF b(1), of id "[]" "{}"]
       blank_category_tolerated [OF b(2), of id "[]" "{}"] l
  show ?thesis by (simp add: p)
qed

section \<open>Properties of the key-fill resolver\<close>

subsection \<open>The lookup of one pass\<close>

lemma map_of_series_drop_duplicates:
  "map_of (series_of key col (drop_duplicates_seen [key] seen rs)) v =
     (if [Some v] \<in> set seen then None else map_of (series_of key col rs) v)"
proof (induction rs arbitrary: seen)
  case Nil
  show ?case by (simp add: series_of_def)
next
  case (Cons r rs)
  show ?case
  proof (cases "r key")
    case None
    with Cons show ?thesis
      by (auto simp: series_of_def)
  next
    case (Some k)
    with Cons show ?thesis
      by (auto simp: series_of_def)
  qed
qed

lemma map_of_series_dropna:
  "map_of (series_of key col (dropna_subset [key, col] rs)) v =
     (case find (\<lambda>r. r key = Some v \<and> r col \<noteq> None) rs of
        None \<Rightarrow> None
      | Some r \<Rightarrow> Some (r col))"
  by (induction rs)
     (auto simp: series_of_def dropna_subset_def split: option.splits)

lemma key_lookup_first_value:
  "series_map (series_of key col (drop_duplicates [key] (dropna_subset [key, col] rs))) x
     = first_value key col rs x"
  by (cases x)
     (auto simp: series_map_def first_value_def drop_duplicates_def
        map_of_series_drop_duplicates map_of_series_dropna split: option.splits)

lemma fill_column_eq:
  "fill_column key col rs =
     map (\<lambda>r. if r col = None then r(col := first_value key col rs (r key)) else r) rs"
  by (simp add: fill_column_def Let_def key_lookup_first_value)

lemma length_fill_column [simp]: "length (fill_column key col rs) = length rs"
  by (simp add: fill_column_eq)

lemma fill_column_nth:
  assumes "i < length rs"
  shows "(fill_column key col rs ! i) c =
           (if c = col \<and> (rs ! i) col = None then first_value key col rs ((rs ! i) key)
            else (rs ! i) c)"
  using assms by (simp add: fill_column_eq)

text \<open>The lookup reads the key and the column only.\<close>

lemma first_value_cong:
  assumes "map (\<lambda>r. (r key, r col)) rs' = map (\<lambda>r. (r key, r col)) rs"
  shows "first_value key col rs' x = first_value key col rs x"
proof (cases x)
  case None
  then show ?thesis by (simp add: first_value_def)
next
  case (Some k)
  have "(case find (\<lambda>r. r key = Some k \<and> r col \<noteq> None) rs' of None \<Rightarrow> None | Some r \<Rightarrow> r col)
      = (case find (\<lambda>r. r key = Some k \<and> r col \<noteq> None) rs of None \<Rightarrow> None | Some r \<Rightarrow> r col)"
    using assms
  proof (induction rs' arbitrary: rs)
    case Nil
    then show ?case by simp
  next
    case (Cons a as)
    then obtain b bs where rs: "rs = b # bs" by (cases rs) auto
    with Cons.prems have h: "a key = b key" "a col = b col"
      and t: "map (\<lambda>r. (r key, r col)) as = map (\<lambda>r. (r key, r col)) bs"
      by auto
    from Cons.IH [OF t] h show ?case by (auto simp: rs)
  qed
  with Some show ?thesis by (simp add: first_value_def)
qed

text \<open>Filling a column with its own lookup does not change the lookup.\<close>

lemma first_value_filled:
  assumes "key \<noteq> col" and "G = first_value key col rs (Some v)"
  shows "first_value key col
           (map (\<lambda>r. if r col = None then r(col := (if r key = Some v then G else H r)) else r) rs)
           (Some v)
         = first_value key col rs (Some v)"
  using assms(2)
proof (induction rs)
  case Nil
  show ?case by (simp add: first_value_def)
next
  case (Cons r rs)
  show ?case
  proof (cases "r key = Some v")
    case False
    with Cons assms(1) show ?thesis by (auto simp: first_value_def)
  next
    case True
    show ?thesis
    proof (cases "r col")
      case (Some a)
      with True show ?thesis by (simp add: first_value_def)
    next
      case None
      with True Cons.prems have G: "G = first_value key col rs (Some v)"
        by (simp add: first_value_def)
      show ?thesis
      proof (cases G)
        case (Some g)
        with G have "first_value key col rs (Some v) = Some g" by simp
        with True None Some assms(1) show ?thesis by (simp add: first_value_def)
      next
        case Gn: None
        from Cons.IH [OF G] True None Gn assms(1) show ?thesis
          by (simp add: first_value_def)
      qed
    qed
  qed
qed


lemma first_value_fill_column:
  assumes "key \<noteq> col"
  shows "first_value key col (fill_column key col rs) x = first_value key col rs x"
proof (cases x)
  case None
  then show ?thesis by (simp add: first_value_def)
next
  case (Some v)
  have "fill_column key col rs =
      map (\<lambda>r. if r col = None
                then r(col := (if r key = Some v then first_value key col rs (Some v)
                               else first_value key col rs (r key)))
                else r) rs"
    unfolding fill_column_eq by (rule map_cong) auto
  with first_value_filled [OF assms refl, where rs = rs and v = v
         and H = "\<lambda>r. first_value key col rs (r key)"] Some
  show ?thesis by simp
qed

lemma fill_columns_snoc:
  "fill_columns key (cols @ [c]) rs = fill_column key c (fill_columns key cols rs)"
  by (simp add: fill_columns_def)

lemma fill_columns_inv:
  assumes "key \<notin> set cols"
  shows "length (fill_columns key cols rs) = length rs \<and>
         (\<forall>i < length rs. \<forall>c.
            (fill_columns key cols rs ! i) c =
              (if c \<in> set cols \<and> (rs ! i) c = None then first_value key c rs ((rs ! i) key)
               else (rs ! i) c))"
  using assms
proof (induction cols rule: rev_induct)
  case Nil
  show ?case by (simp add: fill_columns_def)
next
  case (snoc c0 cols)
  let ?rs' = "fill_columns key cols rs"
  from snoc have k: "key \<noteq> c0" "key \<notin> set cols" by auto
  from snoc.IH [OF k(2)] have len: "length ?rs' = length rs"
    and nth: "\<And>i c. i < length rs \<Longrightarrow> (?rs' ! i) c =
              (if c \<in> set cols \<and> (rs ! i) c = None then first_value key c rs ((rs ! i) key)
               else (rs ! i) c)"
    by auto
  have keys: "\<And>i. i < length rs \<Longrightarrow> (?rs' ! i) key = (rs ! i) key"
    using nth k(2) by simp
  have fv: "first_value key c0 ?rs' x = first_value key c0 rs x" for x
  proof (cases "c0 \<in> set cols")
    case False
    have "map (\<lambda>r. (r key, r c0)) ?rs' = map (\<lambda>r. (r key, r c0)) rs"
      using len nth False k(2) by (auto simp: list_eq_iff_nth_eq)
    then show ?thesis by (rule first_value_cong)
  next
    case True
    have "map (\<lambda>r. (r key, r c0)) ?rs' = map (\<lambda>r. (r key, r c0)) (fill_column key c0 rs)"
      using len nth True k by (auto simp: list_eq_iff_nth_eq fill_column_nth)
    then have "first_value key c0 ?rs' x = first_value key c0 (fill_column key c0 rs) x"
      by (rule first_value_cong)
    with first_value_fill_column [OF k(1)] show ?thesis by simp
  qed
  have "(fill_columns key (cols @ [c0]) rs ! i) c =
          (if c \<in> set (cols @ [c0]) \<and> (rs ! i) c = None
           then first_value key c rs ((rs ! i) key) else (rs ! i) c)"
    if i: "i < length rs" for i c
  proof -
    from i len have i': "i < length ?rs'" by simp
    show ?thesis
      unfolding fill_columns_snoc fill_column_nth [OF i'] fv keys [OF i] nth [OF i]
      using k by auto
  qed
  with len show ?case by (simp add: fill_columns_snoc)
qed


subsection \<open>The whole of fill\_nans\<close>

lemma fill_nans_run_ok:
  assumes "key \<in> set (columns df)" "key \<notin> set (confirmed_targets df targets)"
    "''eGRID_ID'' \<in> set (columns df)"
  shows "fill_nans_run ps df key targets dropna =
           (\<lparr>columns = columns df @ (if ''State'' \<in> set (columns df) then [] else [''State'']),
             rows = (if dropna
                     then dropna_subset (checked_columns df targets) (all_fills ps df key targets)
                     else all_fills ps df key targets)\<rparr>, None)"
  using assms
  by (simp add: fill_nans_run_def Let_def confirmed_targets_def checked_columns_def
        all_fills_def set_column_def)

lemma fill_nans_run_cases:
  "fill_nans_run ps df key targets dropna =
     (if key \<notin> set (columns df) then (df, Some KeyError)
      else if key \<in> set (confirmed_targets df targets)
      then (\<lparr>columns = columns df,
             rows = fill_columns key
                      (takeWhile (\<lambda>col. col \<noteq> key) (confirmed_targets df targets)) (rows df)\<rparr>,
            Some ValueError)
      else if ''eGRID_ID'' \<notin> set (columns df)
      then (if ''State'' \<in> set (columns df)
            then \<lparr>columns = columns df,
                  rows = fill_columns key (confirmed_targets df targets) (rows df)\<rparr>
            else set_column ''State'' (\<lambda>r. None)
                  \<lparr>columns = columns df,
                    rows = fill_columns key (confirmed_targets df targets) (rows df)\<rparr>,
            Some KeyError)
      else (\<lparr>columns = columns df @ (if ''State'' \<in> set (columns df) then [] else [''State'']),
             rows = (if dropna
                     then dropna_subset (checked_columns df targets) (all_fills ps df key targets)
                     else all_fills ps df key targets)\<rparr>, None))"
  by (simp add: fill_nans_run_def Let_def confirmed_targets_def checked_columns_def
        all_fills_def set_column_def)

lemma fill_nans_Inr_iff:
  "fill_nans ps df key targets dropna = Inr out \<longleftrightarrow>
     key \<in> set (columns df) \<and> key \<notin> set (confirmed_targets df targets) \<and>
     ''eGRID_ID'' \<in> set (columns df) \<and>
     out = \<lparr>columns = columns df @ (if ''State'' \<in> set (columns df) then [] else [''State'']),
             rows = (if dropna
                     then dropna_subset (checked_columns df targets) (all_fills ps df key targets)
                     else all_fills ps df key targets)\<rparr>"
  unfolding fill_nans_def fill_nans_run_cases by auto

lemma length_all_fills [simp]: "length (all_fills ps df key targets) = length (rows df)"
  if "key \<notin> set (confirmed_targets df targets)"
  using fill_columns_inv [OF that, of "rows df"] by (simp add: all_fills_def)

lemma all_fills_nth:
  assumes "key \<notin> set (confirmed_targets df targets)" "i < length (rows df)"
  shows "(all_fills ps df key targets ! i) c =
     (let r = rows df ! i;
          filled = (\<lambda>c. if c \<in> set (confirmed_targets df targets) \<and> r c = None
                        then first_value key c (rows df) (r key) else r c);
          s = (if ''State'' \<in> set (columns df) then filled ''State'' else None)
      in if c = ''State''
         then (if s = None then table_map ps (filled ''eGRID_ID'') else s)
         else filled c)"
proof -
  from fill_columns_inv [OF assms(1), of "rows df"] assms(2)
  have len: "i < length (fill_columns key (confirmed_targets df targets) (rows df))"
    and nth: "\<And>c. (fill_columns key (confirmed_targets df targets) (rows df) ! i) c =
       (if c \<in> set (confirmed_targets df targets) \<and> (rows df ! i) c = None
        then first_value key c (rows df) ((rows df ! i) key) else (rows df ! i) c)"
    by auto
  show ?thesis
    using len by (simp add: all_fills_def state_fallback_def nth Let_def)
qed


lemma returned_cells_Inl [simp]: "returned_cells cols res = Inl e \<longleftrightarrow> res = Inl e"
  by (cases res) (simp_all add: returned_cells_def)

lemma returned_cells_Inr:
  "returned_cells cols res = Inr xs \<Longrightarrow> \<exists>df. res = Inr df \<and> map (cells cols) (rows df) = xs"
  by (cases res) (simp_all add: returned_cells_def)

text \<open>
  C5.  Whenever \<open>fill_nans\<close> returns, its rows are those of the call without
  \<open>dropna\<close>, less the rows dropped for a remaining null; and in that call every row
  keeps its position, every cell that was not null keeps its value, and a null cell
  becomes, in a confirmed target column, the value that the first row of the input
  with the same key and a value in that column has there (null when the key is null or
  there is no such row), and stays null in any other column; only a \<open>State\<close> cell that
  is still null after that is given the state of the facility table for the row's
  \<open>eGRID_ID\<close>.
\<close>

theorem fill_nans_only_touches_nulls:
  assumes "fill_nans plant_ba_State df key_column target_columns dropna = Inr out"
  shows "\<exists>filled.
           fill_nans plant_ba_State df key_column target_columns False = Inr filled \<and>
           length (rows filled) = length (rows df) \<and>
           rows out = (if dropna
                       then dropna_subset (checked_columns df target_columns) (rows filled)
                       else rows filled) \<and>
           (\<forall>i < length (rows df). \<forall>c \<in> set (columns df).
              ((rows df ! i) c \<noteq> None \<longrightarrow> (rows filled ! i) c = (rows df ! i) c) \<and>
              ((rows df ! i) c = None \<longrightarrow>
                 (rows filled ! i) c =
                   (let v = (if c \<in> set (confirmed_targets df target_columns)
                             then first_value key_column c (rows df) ((rows df ! i) key_column)
                             else None)
                    in if c = ''State'' \<and> v = None
                       then table_map plant_ba_State ((rows filled ! i) ''eGRID_ID'')
                       else v)))"
proof -
  let ?filled = "\<lparr>columns = columns df @ (if ''State'' \<in> set (columns df) then [] else [''State'']),
                  rows = all_fills plant_ba_State df key_column target_columns\<rparr>"
  from assms have k: "key_column \<in> set (columns df)"
      "key_column \<notin> set (confirmed_targets df target_columns)"
      "''eGRID_ID'' \<in> set (columns df)"
    and out: "rows out = (if dropna
         then dropna_subset (checked_columns df target_columns)
                (all_fills plant_ba_State df key_column target_columns)
         else all_fills plant_ba_State df key_column target_columns)"
    by (auto simp: fill_nans_Inr_iff)
  from k have f: "fill_nans plant_ba_State df key_column target_columns False = Inr ?filled"
    by (simp add: fill_nans_Inr_iff)
  have cellwise: "((rows df ! i) c \<noteq> None \<longrightarrow> (rows ?filled ! i) c = (rows df ! i) c) \<and>
        ((rows df ! i) c = None \<longrightarrow>
           (rows ?filled ! i) c =
             (let v = (if c \<in> set (confirmed_targets df target_columns)
                       then first_value key_column c (rows df) ((rows df ! i) key_column)
                       else None)
              in if c = ''State'' \<and> v = None
                 then table_map plant_ba_State ((rows ?filled ! i) ''eGRID_ID'')
                 else v))"
    if "i < length (rows df)" "c \<in> set (columns df)" for i c
    using that by (auto simp: all_fills_nth [OF k(2)] Let_def)
  from f out k(2) cellwise show ?thesis
    by (intro exI [of _ ?filled]) simp
qed

theorem fill_nans_only_touches_nulls_witness:
  "returned_cells [''NERC'', ''FuelCategory'']
     (fill_nans ex_state ex_fill ''FacilityID'' [] True) =
     Inr [[Some (Str ''TRE''), Some (Str ''GAS'')], [Some (Str ''TRE''), Some (Str ''GAS'')]] \<and>
   cells [''NERC'', ''FuelCategory''] (rows ex_fill ! 0) = [None, Some (Str ''GAS'')] \<and>
   cells [''NERC'', ''FuelCategory''] (rows ex_fill ! 1) = [Some (Str ''TRE''), None] \<and>
   length (rows (the_frame (fill_nans ex_state ex_fill ''FacilityID'' [] False))) = 3 \<and>
   returned_cells [''State''] (fill_nans ex_state ex_fill_state ''FacilityID'' [] True) =
     Inr [[Some (Str ''OK'')], [Some (Str ''OK'')], [Some (Str ''TX'')]] \<and>
   length (rows (the_frame (fill_nans ex_state ex_fill_state ''FacilityID'' [] False))) = 3"
proof -
  have e: "returned_cells [''NERC'', ''FuelCategory'']
     (fill_nans ex_state ex_fill ''FacilityID'' [] True) =
     Inr [[Some (Str ''TRE''), Some (Str ''GAS'')], [Some (Str ''TRE''), Some (Str ''GAS'')]]"
    by code_simp
  then obtain out where o: "fill_nans ex_state ex_fill ''FacilityID'' [] True = Inr out"
    by (auto dest: returned_cells_Inr)
  from fill_nans_only_touches_nulls [OF o] obtain filled where
    f: "fill_nans ex_state ex_fill ''FacilityID'' [] False = Inr filled"
    and l: "length (rows filled) = length (rows ex_fill)"
    by blast
  have c: "cells [''NERC'', ''FuelCategory''] (rows ex_fill ! 0) = [None, Some (Str ''GAS'')]"
    "cells [''NERC'', ''FuelCategory''] (rows ex_fill ! 1) = [Some (Str ''TRE''), None]"
    by code_simp+
  have "length (rows ex_fill) = 3" by (simp add: ex_fill_def)
  with f l have 1: "length (rows (the_frame (fill_nans ex_state ex_fill ''FacilityID'' [] False))) = 3"
    by (simp add: the_frame_def)
  have s: "returned_cells [''State''] (fill_nans ex_state ex_fill_state ''FacilityID'' [] True) =
     Inr [[Some (Str ''OK'')], [Some (Str ''OK'')], [Some (Str ''TX'')]]"
    by code_simp
  then obtain out' where o': "fill_nans ex_state ex_fill_state ''FacilityID'' [] True = Inr out'"
    by (auto dest: returned_cells_Inr)
  from fill_nans_only_touches_nulls [OF o'] obtain filled' where
    f': "fill_nans ex_state ex_fill_state ''FacilityID'' [] False = Inr filled'"
    and l': "length (rows filled') = length (rows ex_fill_state)"
    by blast
  have "length (rows ex_fill_state) = 3" by (simp add: ex_fill_state_def)
  with f' l' have 2:
    "length (rows (the_frame (fill_nans ex_state ex_fill_state ''FacilityID'' [] False))) = 3"
    by (simp add: the_frame_def)
  from e c 1 s 2 show ?thesis by simp
qed

text \<open>
  C6.  The claim holds of a missing key column and of missing target columns, but the
  code raises in a further case: the \<open>State\<close> fallback reads \<open>df["eGRID_ID"]\<close> without
  the check that guards the target columns and the \<open>State\<close> column.  On a table that
  has the key column \<open>FacilityID\<close> and the requested target \<open>NERC\<close> but no \<open>eGRID_ID\<close>,
  \<open>fill_nans\<close> raises \<open>KeyError\<close>, and it does so late: the table is left with \<open>NERC\<close>
  filled and a \<open>State\<close> column added.
\<close>

theorem fill_nans_raises_without_eGRID_ID:
  "''FacilityID'' \<in> set (columns ex_no_egrid) \<and>
   ''NERC'' \<in> set (columns ex_no_egrid) \<and>
   fill_nans ex_state ex_no_egrid ''FacilityID'' [''NERC''] True = Inl KeyError \<and>
   snd (fill_nans_run ex_state ex_no_egrid ''FacilityID'' [''NERC''] True) = Some KeyError \<and>
   columns (fst (fill_nans_run ex_state ex_no_egrid ''FacilityID'' [''NERC''] True))
     = [''FacilityID'', ''NERC'', ''State''] \<and>
   map (cells [''FacilityID'', ''NERC'', ''State''])
       (rows (fst (fill_nans_run ex_state ex_no_egrid ''FacilityID'' [''NERC''] True)))
     = [[Some (Num 1), Some (Str ''TRE''), None], [Some (Num 1), Some (Str ''TRE''), None]] \<and>
   map (cells [''FacilityID'', ''NERC'', ''State'']) (rows ex_no_egrid)
     = [[Some (Num 1), Some (Str ''TRE''), None], [Some (Num 1), None, None]]"
proof -
  have 1: "''FacilityID'' \<in> set (columns ex_no_egrid)" "''NERC'' \<in> set (columns ex_no_egrid)"
    by (simp_all add: ex_no_egrid_def)
  have "returned_cells [] (fill_nans ex_state ex_no_egrid ''FacilityID'' [''NERC''] True)
          = Inl KeyError"
    by code_simp
  then have 2: "fill_nans ex_state ex_no_egrid ''FacilityID'' [''NERC''] True = Inl KeyError"
    by simp
  have 3: "snd (fill_nans_run ex_state ex_no_egrid ''FacilityID'' [''NERC''] True) = Some KeyError"
    by code_simp
  have 4: "columns (fst (fill_nans_run ex_state ex_no_egrid ''FacilityID'' [''NERC''] True))
     = [''FacilityID'', ''NERC'', ''State'']"
    by code_simp
  have 5: "map (cells [''FacilityID'', ''NERC'', ''State''])
       (rows (fst (fill_nans_run ex_state ex_no_egrid ''FacilityID'' [''NERC''] True)))
     = [[Some (Num 1), Some (Str ''TRE''), None], [Some (Num 1), Some (Str ''TRE''), None]]"
    by code_simp
  have 6: "map (cells [''FacilityID'', ''NERC'', ''State'']) (rows ex_no_egrid)
     = [[Some (Num 1), Some (Str ''TRE''), None], [Some (Num 1), None, None]]"
    by code_simp
  from 1 2 3 4 5 6 show ?thesis by blast
qed

text \<open>
  C10.  When the table has no column \<open>State\<close> and \<open>fill_nans\<close> returns: the result has
  the column, it is among the columns checked for nulls, and the state of every row
  is what the facility table gives for the row's \<open>eGRID_ID\<close> and nothing else; with
  \<open>dropna\<close> the rows returned are exactly the filled rows whose \<open>eGRID_ID\<close> the facility
  table resolves to a state and that have no null in a confirmed target column.
\<close>

theorem fill_nans_state_fallback:
  assumes "''State'' \<notin> set (columns df)"
    and "fill_nans plant_ba_State df key_column target_columns dropna = Inr out"
  shows "''State'' \<in> set (columns out) \<and>
         ''State'' \<in> set (checked_columns df target_columns) \<and>
         (\<forall>r \<in> set (rows out). r ''State'' = table_map plant_ba_State (r ''eGRID_ID'')) \<and>
         (dropna \<longrightarrow>
            (\<exists>filled. fill_nans plant_ba_State df key_column target_columns False = Inr filled \<and>
               rows out =
                 filter (\<lambda>r. table_map plant_ba_State (r ''eGRID_ID'') \<noteq> None \<and>
                             (\<forall>c \<in> set (confirmed_targets df target_columns). r c \<noteq> None))
                   (rows filled)))"
proof -
  let ?fills = "all_fills plant_ba_State df key_column target_columns"
  let ?filled = "\<lparr>columns = columns df @ [''State''], rows = ?fills\<rparr>"
  from assms have k: "key_column \<in> set (columns df)"
      "key_column \<notin> set (confirmed_targets df target_columns)"
      "''eGRID_ID'' \<in> set (columns df)"
    and cols: "columns out = columns df @ [''State'']"
    and out: "rows out = (if dropna
         then dropna_subset (checked_columns df target_columns) ?fills else ?fills)"
    by (auto simp: fill_nans_Inr_iff)
  have st: "r ''State'' = table_map plant_ba_State (r ''eGRID_ID'')" if "r \<in> set ?fills" for r
    using that assms(1) by (auto simp: all_fills_def state_fallback_def)
  have chk: "checked_columns df target_columns = confirmed_targets df target_columns @ [''State'']"
    using assms(1) by (simp add: checked_columns_def)
  have all: "\<forall>r \<in> set (rows out). r ''State'' = table_map plant_ba_State (r ''eGRID_ID'')"
    using st out by (auto simp: dropna_subset_def)
  from k assms(1) have f: "fill_nans plant_ba_State df key_column target_columns False = Inr ?filled"
    by (simp add: fill_nans_Inr_iff)
  have "dropna_subset (checked_columns df target_columns) ?fills =
        filter (\<lambda>r. table_map plant_ba_State (r ''eGRID_ID'') \<noteq> None \<and>
                    (\<forall>c \<in> set (confirmed_targets df target_columns). r c \<noteq> None)) ?fills"
    unfolding dropna_subset_def chk
    by (rule filter_cong) (auto simp: st)
  with out f have "dropna \<longrightarrow>
            (\<exists>filled. fill_nans plant_ba_State df key_column target_columns False = Inr filled \<and>
               rows out =
                 filter (\<lambda>r. table_map plant_ba_State (r ''eGRID_ID'') \<noteq> None \<and>
                             (\<forall>c \<in> set (confirmed_targets df target_columns). r c \<noteq> None))
                   (rows filled))"
    by auto
  with cols chk all show ?thesis by simp
qed

theorem fill_nans_state_fallback_witness:
  "''State'' \<notin> set (columns ex_fill) \<and>
   returned_cells [''eGRID_ID'', ''State''] (fill_nans ex_state ex_fill ''FacilityID'' [''NERC''] True)
     = Inr [[Some (Num 1), Some (Str ''TX'')], [Some (Num 1), Some (Str ''TX'')]] \<and>
   returned_cells [''eGRID_ID'', ''State''] (fill_nans ex_state ex_fill ''FacilityID'' [''NERC''] False)
     = Inr [[Some (Num 1), Some (Str ''TX'')], [Some (Num 1), Some (Str ''TX'')],
            [Some (Num 7), None]] \<and>
   ''State'' \<in> set (columns (the_frame (fill_nans ex_state ex_fill ''FacilityID'' [''NERC''] True)))"
proof -
  have a: "''State'' \<notin> set (columns ex_fill)"
    by (simp add: ex_fill_def)
  have e1: "returned_cells [''eGRID_ID'', ''State'']
      (fill_nans ex_state ex_fill ''FacilityID'' [''NERC''] True)
     = Inr [[Some (Num 1), Some (Str ''TX'')], [Some (Num 1), Some (Str ''TX'')]]"
    by code_simp
  have e2: "returned_cells [''eGRID_ID'', ''State'']
      (fill_nans ex_state ex_fill ''FacilityID'' [''NERC''] False)
     = Inr [[Some (Num 1), Some (Str ''TX'')], [Some (Num 1), Some (Str ''TX'')],
            [Some (Num 7), None]]"
    by code_simp
  from e1 obtain out where o: "fill_nans ex_state ex_fill ''FacilityID'' [''NERC''] True = Inr out"
    by (auto dest: returned_cells_Inr)
  from fill_nans_state_fallback [OF a o] have "''State'' \<in> set (columns out)"
    by blast
  with o have "''State'' \<in> set (columns (the_frame (fill_nans ex_state ex_fill ''FacilityID'' [''NERC''] True)))"
    by (simp add: the_frame_def)
  with a e1 e2 show ?thesis by simp
qed


section \<open>Properties of the combiner\<close>

lemma first_value_Some:
  assumes "first_value key col rs x = Some v"
  shows "\<exists>q \<in> set rs. q key = x \<and> q col = Some v"
proof -
  from assms obtain k where x: "x = Some k"
    by (cases x) (auto simp: first_value_def)
  with assms obtain q where "find (\<lambda>r. r key = Some k \<and> r col \<noteq> None) rs = Some q" "q col = Some v"
    by (auto simp: first_value_def split: option.splits)
  then show ?thesis
    using x by (auto simp: find_Some_iff)
qed

lemma null_fuel_category_Inr:
  assumes "null_fuel_category c = Inr n"
  shows "''FuelCategory'' \<in> set (columns n)"
    and "length (rows n) = length (rows c)"
    and "i < length (rows c) \<Longrightarrow> col \<noteq> ''FuelCategory'' \<Longrightarrow> (rows n ! i) col = (rows c ! i) col"
    and "i < length (rows c) \<Longrightarrow> (rows n ! i) ''FuelCategory'' =
           (if ''FuelCategory'' \<notin> set (columns c) \<or>
               (rows c ! i) ''stage_code'' \<noteq> Some (Str ''Power plant'') \<or>
               (rows c ! i) ''FuelCategory'' = Some (Str ''CONSTRUCTION'')
            then None else (rows c ! i) ''FuelCategory'')"
  using assms
  by (auto simp: null_fuel_category_def loc_set_def Let_def split: if_splits)

lemma rows_loc_set:
  "rows (loc_set sel c v df) =
     map (\<lambda>r. if sel r then r(c := v) else if c \<in> set (columns df) then r else r(c := None))
       (rows df)"
  by (simp add: loc_set_def)

lemma columns_loc_set:
  "set (columns (loc_set sel c v df)) = insert c (set (columns df))"
  by (auto simp: loc_set_def)

lemma generation_filter_upd:
  "c \<noteq> ''PercentGenerationfromDesignatedFuelCategory'' \<Longrightarrow>
     generation_filter cfg (r(c := v)) = generation_filter cfg r"
  by (simp add: generation_filter_def)

lemma col_neq:
  "''FuelCategory'' \<noteq> ''PercentGenerationfromDesignatedFuelCategory''"
  "''PrimaryFuel'' \<noteq> ''PercentGenerationfromDesignatedFuelCategory''"
  "''FuelCategory'' \<noteq> ''PrimaryFuel''" "''PrimaryFuel'' \<noteq> ''FuelCategory''"
  by simp_all

lemma mixed_policy_keep_eq:
  assumes "mixed_policy cfg f = Inr out" "keep_mixed_plant_category cfg"
  shows "out = loc_set (generation_filter cfg) ''PrimaryFuel'' (Some (Str ''Mixed Fuel Type''))
                 (loc_set (generation_filter cfg) ''FuelCategory'' (Some (Str ''MIXED'')) f)"
  using assms unfolding mixed_policy_def by (simp split: if_splits)

lemma mixed_policy_keep:
  assumes "mixed_policy cfg f = Inr out" "keep_mixed_plant_category cfg"
  shows "length (rows out) = length (rows f)"
    and "i < length (rows f) \<Longrightarrow> generation_filter cfg (rows f ! i) \<Longrightarrow>
           (rows out ! i) c =
             (if c = ''FuelCategory'' then Some (Str ''MIXED'')
              else if c = ''PrimaryFuel'' then Some (Str ''Mixed Fuel Type'')
              else (rows f ! i) c)"
    and "i < length (rows f) \<Longrightarrow> \<not> generation_filter cfg (rows f ! i) \<Longrightarrow>
           c \<in> set (columns f) \<Longrightarrow> (rows out ! i) c = (rows f ! i) c"
proof -
  note out = mixed_policy_keep_eq [OF assms]
  show "length (rows out) = length (rows f)"
    unfolding out by (simp add: rows_loc_set)
  show "(rows out ! i) c =
             (if c = ''FuelCategory'' then Some (Str ''MIXED'')
              else if c = ''PrimaryFuel'' then Some (Str ''Mixed Fuel Type'')
              else (rows f ! i) c)"
    if "i < length (rows f)" "generation_filter cfg (rows f ! i)"
    unfolding out using that
    by (simp add: rows_loc_set generation_filter_upd col_neq(1) col_neq(3,4))
  show "(rows out ! i) c = (rows f ! i) c"
    if "i < length (rows f)" "\<not> generation_filter cfg (rows f ! i)" "c \<in> set (columns f)"
    unfolding out using that
    by (auto simp: rows_loc_set columns_loc_set generation_filter_upd col_neq(1))
qed

lemma mixed_policy_drop:
  assumes "mixed_policy cfg f = Inr out" "\<not> keep_mixed_plant_category cfg"
  shows "rows out = filter (\<lambda>r. \<not> generation_filter cfg r) (rows f)"
  using assms by (auto simp: mixed_policy_def split: if_splits)

lemma concat_clean_Inr:
  assumes "concat_clean_upstream_and_plant cfg ba ps pl up = Inr out"
  shows "\<exists>combined nulled filled.
           combine ba pl up = Inr combined \<and> null_fuel_category combined = Inr nulled \<and>
           fill_nans ps nulled ''FacilityID'' [] True = Inr filled \<and>
           combined_filled ba ps pl up = Inr filled \<and>
           mixed_policy cfg filled = Inr out"
  using assms
  by (auto simp: concat_clean_upstream_and_plant_def combined_filled_def fill_nans_default_def
        split: sum.splits)


lemma str_neq [simp]:
  "''FacilityID'' \<noteq> ''State''" "''FuelCategory'' \<noteq> ''State''"
  "''FacilityID'' \<noteq> ''FuelCategory''" "''FacilityID'' \<noteq> ''PrimaryFuel''"
  by simp_all

lemma FuelCategory_confirmed:
  "''FuelCategory'' \<in> set (columns n) \<Longrightarrow> ''FuelCategory'' \<in> set (confirmed_targets n [])"
  by (simp add: confirmed_targets_def default_target_columns_def)

lemma policy_row:
  assumes "mixed_policy cfg f = Inr out" "r \<in> set (rows out)"
    "''FuelCategory'' \<in> set (columns f)" "''FacilityID'' \<in> set (columns f)"
  shows "\<exists>s \<in> set (rows f). r ''FacilityID'' = s ''FacilityID'' \<and>
           (r ''FuelCategory'' = Some (Str ''MIXED'') \<or> r ''FuelCategory'' = s ''FuelCategory'')"
proof (cases "keep_mixed_plant_category cfg")
  case False
  from mixed_policy_drop [OF assms(1) False] assms(2) show ?thesis by auto
next
  case True
  note k = mixed_policy_keep [OF assms(1) True]
  from assms(2) k(1) obtain i where i: "i < length (rows f)" "r = rows out ! i"
    by (auto simp: in_set_conv_nth)
  show ?thesis
  proof (cases "generation_filter cfg (rows f ! i)")
    case True
    from k(2) [OF i(1) True] i have "r ''FacilityID'' = (rows f ! i) ''FacilityID''"
      "r ''FuelCategory'' = Some (Str ''MIXED'')"
      by simp_all
    with i(1) show ?thesis by (intro bexI [of _ "rows f ! i"]) simp_all
  next
    case False
    from k(3) [OF i(1) False] assms(3,4) i have "r ''FacilityID'' = (rows f ! i) ''FacilityID''"
      "r ''FuelCategory'' = (rows f ! i) ''FuelCategory''"
      by simp_all
    with i(1) show ?thesis by (intro bexI [of _ "rows f ! i"]) simp_all
  qed
qed

lemma fill_row:
  assumes "fill_nans ps n ''FacilityID'' [] True = Inr f" "''FuelCategory'' \<in> set (columns n)"
    "s \<in> set (rows f)"
  shows "s ''FuelCategory'' \<noteq> None \<and>
         (\<exists>q \<in> set (rows n). q ''FacilityID'' = s ''FacilityID'' \<and>
             q ''FuelCategory'' = s ''FuelCategory'')"
proof -
  let ?fills = "all_fills ps n ''FacilityID'' []"
  from assms(1) have k: "''FacilityID'' \<notin> set (confirmed_targets n [])"
    and f: "rows f = dropna_subset (checked_columns n []) ?fills"
    by (auto simp: fill_nans_Inr_iff)
  from assms(2) have "''FuelCategory'' \<in> set (checked_columns n [])"
    by (simp add: checked_columns_def FuelCategory_confirmed)
  with assms(3) f have nn: "s ''FuelCategory'' \<noteq> None" and "s \<in> set ?fills"
    by (auto simp: dropna_subset_def)
  then obtain i where i: "i < length (rows n)" "s = ?fills ! i"
    using length_all_fills [OF k] by (auto simp: in_set_conv_nth)
  let ?r = "rows n ! i"
  from all_fills_nth [OF k i(1), of ps "''FacilityID''"] k i(2)
  have key: "s ''FacilityID'' = ?r ''FacilityID''"
    by (simp add: Let_def)
  from all_fills_nth [OF k i(1), of ps "''FuelCategory''"] i(2) assms(2)
  have fc: "s ''FuelCategory'' =
       (if ?r ''FuelCategory'' = None
        then first_value ''FacilityID'' ''FuelCategory'' (rows n) (?r ''FacilityID'')
        else ?r ''FuelCategory'')"
    by (simp add: Let_def FuelCategory_confirmed)
  have "\<exists>q \<in> set (rows n). q ''FacilityID'' = s ''FacilityID'' \<and>
             q ''FuelCategory'' = s ''FuelCategory''"
  proof (cases "?r ''FuelCategory''")
    case (Some a)
    with fc key i(1) show ?thesis by (intro bexI [of _ ?r]) simp_all
  next
    case None
    with fc nn obtain v where
      v: "first_value ''FacilityID'' ''FuelCategory'' (rows n) (?r ''FacilityID'') = Some v"
         "s ''FuelCategory'' = Some v"
      by auto
    from first_value_Some [OF v(1)] v(2) key show ?thesis by auto
  qed
  with nn show ?thesis by simp
qed

lemma null_row:
  assumes "null_fuel_category c = Inr n" "q \<in> set (rows n)" "q ''FuelCategory'' \<noteq> None"
  shows "\<exists>p \<in> set (rows c). p ''stage_code'' = Some (Str ''Power plant'') \<and>
           p ''FuelCategory'' \<noteq> Some (Str ''CONSTRUCTION'') \<and>
           p ''FacilityID'' = q ''FacilityID'' \<and> p ''FuelCategory'' = q ''FuelCategory''"
proof -
  note n = null_fuel_category_Inr [OF assms(1)]
  from assms(2) n(2) obtain i where i: "i < length (rows c)" "q = rows n ! i"
    by (auto simp: in_set_conv_nth)
  from n(4) [OF i(1)] i(2) assms(3)
  have "(rows c ! i) ''stage_code'' = Some (Str ''Power plant'')"
    "(rows c ! i) ''FuelCategory'' \<noteq> Some (Str ''CONSTRUCTION'')"
    "(rows c ! i) ''FuelCategory'' = q ''FuelCategory''"
    by (auto split: if_splits)
  moreover from n(3) [OF i(1), of "''FacilityID''"] i(2)
  have "(rows c ! i) ''FacilityID'' = q ''FacilityID''" by simp
  ultimately show ?thesis using i(1) by (intro bexI [of _ "rows c ! i"]) simp_all
qed

subsection \<open>The example of two plants\<close>

lemma ex_combined:
  "returned_cells [''FacilityID'', ''stage_code'', ''FuelCategory''] (combine ex_ba ex_pl ex_up) =
     Inr [[Some (Num 1), Some (Str ''Power plant''), Some (Str ''GAS'')],
          [Some (Num 2), Some (Str ''Power plant''), Some (Str ''COAL'')],
          [Some (Num 1), Some (Str ''Upstream construction''), Some (Str ''CONSTRUCTION'')],
          [Some (Num 2), Some (Str ''Coal mining''), Some (Str ''COAL'')]]"
  by code_simp

lemma ex_filled:
  "returned_cells [''FacilityID'', ''stage_code'', ''FuelCategory'', ''PrimaryFuel'']
     (combined_filled ex_ba ex_state ex_pl ex_up) =
     Inr [[Some (Num 1), Some (Str ''Power plant''), Some (Str ''GAS''), Some (Str ''NG'')],
          [Some (Num 2), Some (Str ''Power plant''), Some (Str ''COAL''), Some (Str ''BIT'')],
          [Some (Num 1), Some (Str ''Upstream construction''), Some (Str ''GAS''), None],
          [Some (Num 2), Some (Str ''Coal mining''), Some (Str ''COAL''), None]]"
  by code_simp

lemma ex_drop:
  "returned_cells [''FacilityID'', ''stage_code'', ''FuelCategory'', ''PrimaryFuel'']
     (concat_clean_upstream_and_plant (ex_cfg False) ex_ba ex_state ex_pl ex_up) =
     Inr [[Some (Num 1), Some (Str ''Power plant''), Some (Str ''GAS''), Some (Str ''NG'')],
          [Some (Num 1), Some (Str ''Upstream construction''), Some (Str ''GAS''), None]]"
  by code_simp

lemma ex_keep:
  "returned_cells [''FacilityID'', ''stage_code'', ''FuelCategory'', ''PrimaryFuel'']
     (concat_clean_upstream_and_plant (ex_cfg True) ex_ba ex_state ex_pl ex_up) =
     Inr [[Some (Num 1), Some (Str ''Power plant''), Some (Str ''GAS''), Some (Str ''NG'')],
          [Some (Num 2), Some (Str ''Power plant''), Some (Str ''MIXED''), Some (Str ''Mixed Fuel Type'')],
          [Some (Num 1), Some (Str ''Upstream construction''), Some (Str ''GAS''), None],
          [Some (Num 2), Some (Str ''Coal mining''), Some (Str ''MIXED''), Some (Str ''Mixed Fuel Type'')]]"
  by code_simp

lemma returned_cells_length:
  "returned_cells cols res = Inr xs \<Longrightarrow> length (rows (the_frame res)) = length xs"
  by (cases res) (auto simp: returned_cells_def the_frame_def)







section \<open>Properties of the upstream flow mapper\<close>

subsection \<open>The pass that builds the groups\<close>

lemma keys_add_to_group:
  "map fst (add_to_group k r gs) =
     (if k \<in> fst ` set gs then map fst gs else map fst gs @ [k])"
proof (induction gs)
  case Nil
  show ?case by simp
next
  case (Cons g gs)
  obtain k' a where g: "g = (k', a)" by (cases g)
  show ?case
  proof (cases "k' = k")
    case True
    then show ?thesis by (simp add: g)
  next
    case False
    then have "k \<noteq> k'" by blast
    with False Cons.IH show ?thesis by (simp add: g)
  qed
qed

lemma map_of_add_to_group:
  "map_of (add_to_group k r gs) k' =
     (if k' = k then Some (agg_add (case map_of gs k of None \<Rightarrow> agg_empty | Some a \<Rightarrow> a) r)
      else map_of gs k')"
  by (induction gs) auto

lemma distinct_add_to_group:
  "distinct (map fst gs) \<Longrightarrow> distinct (map fst (add_to_group k r gs))"
  by (simp add: keys_add_to_group)

lemma map_of_None_iff: "map_of gs k = None \<longleftrightarrow> k \<notin> fst ` set gs"
  by (simp add: map_of_eq_None_iff)

text \<open>
  After the pass the keys are distinct, they are the keys of the rows, and the
  aggregate of a key has taken in exactly the rows of that key, in order.
\<close>

lemma groups_foldl:
  "distinct (map fst gs) \<Longrightarrow>
     distinct (map fst (foldl (group_step key) gs rs)) \<and>
     fst ` set (foldl (group_step key) gs rs) = fst ` set gs \<union> set (List.map_filter key rs) \<and>
     (\<forall>k. k \<in> fst ` set gs \<union> set (List.map_filter key rs) \<longrightarrow>
        map_of (foldl (group_step key) gs rs) k =
          Some (foldl agg_add (case map_of gs k of None \<Rightarrow> agg_empty | Some a \<Rightarrow> a)
                  (filter (\<lambda>r. key r = Some k) rs)))"
proof (induction rs arbitrary: gs)
  case Nil
  have "map_of gs k = Some (case map_of gs k of None \<Rightarrow> agg_empty | Some a \<Rightarrow> a)"
    if "k \<in> fst ` set gs" for k
    using that by (cases "map_of gs k") (simp_all add: map_of_None_iff)
  with Nil show ?case by simp
next
  case (Cons r rs)
  show ?case
  proof (cases "key r")
    case None
    have step: "foldl (group_step key) gs (r # rs) = foldl (group_step key) gs rs"
      by (simp add: group_step_def None)
    have mf: "List.map_filter key (r # rs) = List.map_filter key rs"
      by (simp add: None)
    have fl: "filter (\<lambda>r. key r = Some k) (r # rs) = filter (\<lambda>r. key r = Some k) rs" for k
      by (simp add: None)
    from Cons.IH [OF Cons.prems] show ?thesis
      unfolding step mf fl .
  next
    case (Some k0)
    let ?gs = "add_to_group k0 r gs"
    have d: "distinct (map fst ?gs)"
      using Cons.prems by (rule distinct_add_to_group)
    have keys: "fst ` set ?gs = insert k0 (fst ` set gs)"
      using keys_add_to_group [of k0 r gs, THEN arg_cong, of set] by auto
    from Cons.IH [OF d] have ih1: "distinct (map fst (foldl (group_step key) ?gs rs))"
      and ih2: "fst ` set (foldl (group_step key) ?gs rs)
                  = fst ` set ?gs \<union> set (List.map_filter key rs)"
      and ih3: "\<And>k. k \<in> fst ` set ?gs \<union> set (List.map_filter key rs) \<Longrightarrow>
        map_of (foldl (group_step key) ?gs rs) k =
          Some (foldl agg_add (case map_of ?gs k of None \<Rightarrow> agg_empty | Some a \<Rightarrow> a)
                  (filter (\<lambda>r. key r = Some k) rs))"
      by blast+
    have step: "foldl (group_step key) gs (r # rs) = foldl (group_step key) ?gs rs"
      by (simp add: group_step_def Some)
    have mf: "set (List.map_filter key (r # rs)) = insert k0 (set (List.map_filter key rs))"
      by (simp add: Some)
    have m: "map_of (foldl (group_step key) ?gs rs) k =
          Some (foldl agg_add (case map_of gs k of None \<Rightarrow> agg_empty | Some a \<Rightarrow> a)
                  (filter (\<lambda>r. key r = Some k) (r # rs)))"
      if "k \<in> fst ` set gs \<union> set (List.map_filter key (r # rs))" for k
    proof -
      from that [unfolded mf] have "k \<in> fst ` set ?gs \<union> set (List.map_filter key rs)"
        unfolding keys by blast
      from ih3 [OF this] show ?thesis
        by (cases "k = k0") (simp_all add: map_of_add_to_group Some)
    qed
    from ih2 have ih2': "fst ` set (foldl (group_step key) ?gs rs)
        = fst ` set gs \<union> set (List.map_filter key (r # rs))"
      unfolding keys mf by blast
    from ih1 ih2' m show ?thesis
      unfolding step by blast
  qed
qed

lemma foldl_agg_add:
  "amount_sum (foldl agg_add a rs) = amount_sum a + sum_list (amounts rs) \<and>
   quantity_sum (foldl agg_add a rs) = quantity_sum a + sum_list (quantities rs) \<and>
   quantity_count (foldl agg_add a rs) = quantity_count a + length (quantities rs)"
  by (induction rs arbitrary: a)
     (auto simp: agg_add_def amounts_def quantities_def split: option.splits)

lemma finish_group_sums:
  "g_FlowAmount (finish_group (k, foldl agg_add agg_empty rs)) = Some (sum_list (amounts rs))"
  "g_quantity (finish_group (k, foldl agg_add agg_empty rs)) = mean (quantities rs)"
  by (simp_all add: finish_group_def foldl_agg_add agg_empty_def mean_of_def mean_def)

lemma distinct_map_sort_key:
  "distinct (map f (sort_key f xs)) = distinct (map f xs)"
  by (induction xs) (simp_all add: distinct_insort_key)

lemma g_key_groupby_agg:
  "map g_key (groupby_agg rs) = map fst (sort_key fst (foldl (group_step group_key) [] rs))"
  by (simp add: groupby_agg_def finish_group_def comp_def)


subsection \<open>The grouped table\<close>

lemma set_map_filter:
  "set (List.map_filter f xs) = {y. \<exists>x\<in>set xs. f x = Some y}"
  by (induction xs) (auto split: option.splits)

lemma filter_key_distinct:
  "distinct (map fst xs) \<Longrightarrow> (k, a) \<in> set xs \<Longrightarrow> filter (\<lambda>p. fst p = k) xs = [(k, a)]"
proof (induction xs)
  case Nil
  then show ?case by simp
next
  case (Cons p xs)
  show ?case
  proof (cases "p = (k, a)")
    case True
    with Cons.prems have "k \<notin> fst ` set xs" by simp
    then have "filter (\<lambda>p. fst p = k) xs = []"
      by (auto simp: filter_empty_conv)
    with True show ?thesis by simp
  next
    case False
    with Cons.prems have in_xs: "(k, a) \<in> set xs" by simp
    then have "k \<in> fst ` set xs" by (rule rev_image_eqI) simp
    with Cons.prems have "fst p \<noteq> k" by auto
    moreover from Cons.prems in_xs have "filter (\<lambda>p. fst p = k) xs = [(k, a)]"
      by (simp add: Cons.IH)
    ultimately show ?thesis by simp
  qed
qed

text \<open>The groups of the pass from the empty list, sorted by key.\<close>

lemma sorted_groups:
  fixes rs :: "upstream_row list" and key :: "upstream_row \<Rightarrow> ('k :: linorder) option"
  defines "S \<equiv> sort_key fst (foldl (group_step key) [] rs)"
  shows "distinct (map fst S)"
    and "sorted (map fst S)"
    and "fst ` set S = {k. \<exists>r\<in>set rs. key r = Some k}"
    and "key r = Some k \<Longrightarrow> r \<in> set rs \<Longrightarrow>
           (k, foldl agg_add agg_empty (filter (\<lambda>r. key r = Some k) rs)) \<in> set S"
proof -
  let ?G = "foldl (group_step key) [] rs"
  have G: "distinct (map fst ?G)"
    "fst ` set ?G = set (List.map_filter key rs)"
    "\<And>k. k \<in> set (List.map_filter key rs) \<Longrightarrow>
        map_of ?G k = Some (foldl agg_add agg_empty (filter (\<lambda>r. key r = Some k) rs))"
    using groups_foldl [of "[]" key rs] by simp_all
  show "distinct (map fst S)"
    unfolding S_def using G(1) by (simp add: distinct_map_sort_key)
  show "sorted (map fst S)"
    unfolding S_def by simp
  show "fst ` set S = {k. \<exists>r\<in>set rs. key r = Some k}"
    unfolding S_def using G(2) by (simp add: set_map_filter)
  show "(k, foldl agg_add agg_empty (filter (\<lambda>r. key r = Some k) rs)) \<in> set S"
    if "key r = Some k" "r \<in> set rs"
  proof -
    from that have "k \<in> set (List.map_filter key rs)"
      unfolding set_map_filter by blast
    from G(3) [OF this] have "(k, foldl agg_add agg_empty (filter (\<lambda>r. key r = Some k) rs)) \<in> set ?G"
      by (rule map_of_SomeD)
    then show ?thesis unfolding S_def by simp
  qed
qed

lemma g_key_finish_group: "g_key (finish_group p) = fst p"
  by (simp add: finish_group_def)

lemma filter_groupby_agg:
  "filter (\<lambda>g. g_key g = k) (groupby_agg rs) =
     map finish_group (filter (\<lambda>p. fst p = k) (sort_key fst (foldl (group_step group_key) [] rs)))"
  unfolding groupby_agg_def filter_map comp_def g_key_finish_group ..


lemma ex_first_row:
  "hd ex_upstream_df \<in> set ex_upstream_df"
  "group_key (hd ex_upstream_df) = Some ex_key"
  by code_simp+

lemma ex_group_values:
  "sum_list (amounts (rows_of_group ex_key ex_upstream_df)) = 9"
  "mean (quantities (rows_of_group ex_key ex_upstream_df)) = Some 15"
  by code_simp+


subsection \<open>The flow lists\<close>

text \<open>
  A key of \<open>unique_orig\<close> has two components and a key of \<open>unique_mapped\<close> six, so the
  difference of the two sets is the first set: the list of unmatched flows is the
  sorted list of all pairs of the table before the mapping.
\<close>

lemma length_unique_orig: "x \<in> set (unique_orig upstream_df) \<Longrightarrow> length x = 2"
proof -
  assume "x \<in> set (unique_orig upstream_df)"
  then obtain r :: upstream_row where
    "(case (FlowName_orig r, Compartment_path_orig r) of
        (Some n, Some p) \<Rightarrow> Some [n, p] | _ \<Rightarrow> None) = Some x"
    unfolding unique_orig_def set_remdups set_map_filter by blast
  then show ?thesis
    by (cases "FlowName_orig r"; cases "Compartment_path_orig r") auto
qed

lemma length_unique_mapped: "x \<in> set (unique_mapped ms) \<Longrightarrow> length x = 6"
proof -
  assume "x \<in> set (unique_mapped ms)"
  then obtain m :: mapped_row where
    "(case m_target m of
        None \<Rightarrow> None
      | Some e \<Rightarrow> Some [g_FlowName_orig (m_grouped m), g_Compartment_path_orig (m_grouped m),
                      g_Unit_orig (m_grouped m), TargetFlowName e, TargetFlowContext e,
                      TargetUnit e]) = Some x"
    unfolding unique_mapped_def set_remdups set_map_filter by blast
  then show ?thesis
    by (cases "m_target m") auto
qed

lemma unmatched_list_all_pairs:
  "unmatched_list (unique_orig upstream_df) (unique_mapped ms) = sort (unique_orig upstream_df)"
proof -
  have "x \<notin> set (unique_mapped ms)" if "x \<in> set (unique_orig upstream_df)" for x
    using length_unique_orig [OF that] length_unique_mapped [of x ms] by auto
  then have "filter (\<lambda>x. x \<notin> set (unique_mapped ms)) (unique_orig upstream_df)
               = unique_orig upstream_df"
    by (simp add: filter_id_conv)
  then show ?thesis by (simp add: unmatched_list_def)
qed


end
